theory Spec2Isabelle
  imports Main "HOL-Library.AList" "HOL-Library.Multiset" "HOL-Library.Char_ord"
    "HOL-Library.List_Lexorder"
begin

section \<open>Values of the parsed document\<close>

text \<open>
  The commands read and write documents through the xml2js codec, which is a dependency
  and not part of the repository. What the code of \<^verbatim>\<open>split.ts\<close> and
  \<^verbatim>\<open>merge.ts\<close> handles is the parser's result: JavaScript values built
  from strings, arrays and objects. An object is an association list, in the order in which
  \<^verbatim>\<open>Object.entries\<close> enumerates its own properties: the order of insertion, the
  keys being element names and none of them an array index. The parser delivers neither
  numbers nor booleans. Strings are lists of characters; characters beyond ASCII are not
  interpreted.
\<close>

datatype jsval =
    JUndefined
  | JNull
  | JString string
  | JArray "jsval list"
  | JObject "(string \<times> jsval) list"

datatype error =
    Error string
  | TypeError string
  | ParseError string
  | SystemError string
  | CLIError string

fun message :: "error \<Rightarrow> string" where
  "message (Error m) = m"
| "message (TypeError m) = m"
| "message (ParseError m) = m"
| "message (SystemError m) = m"
| "message (CLIError m) = m"

text \<open>Truthiness, as \<^verbatim>\<open>if (v)\<close> and \<^verbatim>\<open>a && b\<close> test it.\<close>

fun truthy :: "jsval \<Rightarrow> bool" where
  "truthy JUndefined = False"
| "truthy JNull = False"
| "truthy (JString s) = (s \<noteq> [])"
| "truthy (JArray xs) = True"
| "truthy (JObject fs) = True"

text \<open>\<^verbatim>\<open>typeof v === 'object'\<close>: true of objects, of arrays and of null.\<close>

fun typeof_object :: "jsval \<Rightarrow> bool" where
  "typeof_object JNull = True"
| "typeof_object (JArray xs) = True"
| "typeof_object (JObject fs) = True"
| "typeof_object v = False"

definition digit_char :: "nat \<Rightarrow> char" where
  "digit_char d = ''0123456789'' ! (d mod 10)"

text \<open>The decimal numeral of a natural number, as a template literal prints it.\<close>

fun show_nat :: "nat \<Rightarrow> string" where
  "show_nat n = (if n < 10 then [digit_char n] else show_nat (n div 10) @ [digit_char n])"

declare show_nat.simps [simp del]

text \<open>
  Reading a member \<^verbatim>\<open>v[k]\<close> of a value that is neither null nor undefined:
  an own property of an object, an element of an array or a character of a string when
  \<open>k\<close> is the numeral of an index in range. The members that arrays and strings inherit
  (\<^verbatim>\<open>length\<close>, the methods) are read by the commands only where every value
  that is not an array is passed over, so they are left undefined here. On null and
  undefined the read raises; \<open>get\<close> below models that.
\<close>

definition index_of_key :: "nat \<Rightarrow> string \<Rightarrow> nat option" where
  "index_of_key n k = List.find (\<lambda>i. show_nat i = k) [0..<n]"

fun member_of :: "jsval \<Rightarrow> string \<Rightarrow> jsval" where
  "member_of (JObject fs) k = (case map_of fs k of Some v \<Rightarrow> v | None \<Rightarrow> JUndefined)"
| "member_of (JArray xs) k = (case index_of_key (length xs) k of Some i \<Rightarrow> xs ! i | None \<Rightarrow> JUndefined)"
| "member_of (JString s) k = (case index_of_key (length s) k of Some i \<Rightarrow> JString [s ! i] | None \<Rightarrow> JUndefined)"
| "member_of JUndefined k = JUndefined"
| "member_of JNull k = JUndefined"

definition get :: "jsval \<Rightarrow> string \<Rightarrow> error + jsval" where
  "get v k =
     (if v = JUndefined then Inl (TypeError (''Cannot read properties of undefined (reading '' @ k @ '')''))
      else if v = JNull then Inl (TypeError (''Cannot read properties of null (reading '' @ k @ '')''))
      else Inr (member_of v k))"

text \<open>\<^verbatim>\<open>String(v)\<close>, the conversion a template literal applies.\<close>

fun intercalate :: "string \<Rightarrow> string list \<Rightarrow> string" where
  "intercalate sep [] = []"
| "intercalate sep [x] = x"
| "intercalate sep (x # y # ys) = x @ sep @ intercalate sep (y # ys)"

fun to_string :: "jsval \<Rightarrow> string" where
  "to_string JUndefined = ''undefined''"
| "to_string JNull = ''null''"
| "to_string (JString s) = s"
| "to_string (JArray xs) =
     intercalate '','' (map (\<lambda>x. if x = JUndefined \<or> x = JNull then [] else to_string x) xs)"
| "to_string (JObject fs) = ''[object Object]''"

text \<open>\<^verbatim>\<open>s.replace(/c/g, d)\<close> for a one-character pattern.\<close>

definition replace_all :: "char \<Rightarrow> char \<Rightarrow> string \<Rightarrow> string" where
  "replace_all c d s = map (\<lambda>x. if x = c then d else x) s"

section \<open>The Record Namer (split.ts, lines 123 to 143)\<close>

text \<open>
  \<^verbatim>\<open>Math.random()\<close> is a double \<open>r\<close> with \<open>0 \<le> r < 1\<close>. Such a number is
  \<open>m / 2 ^ k\<close> for a significand \<open>m\<close> below \<open>2 ^ 53\<close> and at most 1074 binary places
  \<open>k\<close>; \<open>Double m k\<close> stands for it.
\<close>

datatype double = Double nat nat

fun unit_double :: "double \<Rightarrow> bool" where
  "unit_double (Double m k) = (m < 2 ^ 53 \<and> k \<le> 1074 \<and> m < 2 ^ k)"

text \<open>The number of binary digits of a natural number.\<close>

fun bit_length :: "nat \<Rightarrow> nat" where
  "bit_length n = (if n = 0 then 0 else Suc (bit_length (n div 2)))"

declare bit_length.simps [simp del]

text \<open>
  The product \<^verbatim>\<open>Math.random() * 10000\<close> is the double nearest to the exact product,
  the one with the even significand when two are equally near. For a natural number \<open>M\<close>,
  \<open>round_to_double M\<close> is the nearest natural number with at most 53 significant binary
  digits; the exact product is \<open>(m * 10000) / 2 ^ k\<close>, and rounding commutes with the
  scaling by \<open>2 ^ k\<close>, no result being smaller than the least positive double.
  \<^verbatim>\<open>Math.floor\<close> of the rounded product is then a quotient of natural numbers.
\<close>

definition round_to_double :: "nat \<Rightarrow> nat" where
  "round_to_double M =
     (let s = bit_length M - 53; q = M div 2 ^ s; r = M mod 2 ^ s
      in if 2 * r < 2 ^ s \<or> (2 * r = 2 ^ s \<and> even q) then q * 2 ^ s else (q + 1) * 2 ^ s)"

fun random_integer :: "double \<Rightarrow> nat" where
  "random_integer (Double m k) = round_to_double (m * 10000) div 2 ^ k"

definition random_name :: "double \<Rightarrow> string" where
  "random_name r = ''item-'' @ show_nat (random_integer r)"

text \<open>
  The chain of tests on an item for which \<^verbatim>\<open>typeof item === 'object'\<close> holds.
  The result is the value assigned to \<^verbatim>\<open>itemName\<close>, \<open>None\<close> when the last
  branch is reached and a random name is to be drawn, or the TypeError that reading a
  property of null or calling a missing \<^verbatim>\<open>replace\<close> raises.
\<close>

definition first_of :: "jsval \<Rightarrow> string \<Rightarrow> jsval" where
  "first_of item k = member_of (member_of item k) ''0''"

definition has_first :: "jsval \<Rightarrow> string \<Rightarrow> bool" where
  "has_first item k = (truthy (member_of item k) \<and> truthy (first_of item k))"

definition replace_in :: "jsval \<Rightarrow> char \<Rightarrow> error + jsval option" where
  "replace_in v c =
     (case v of
        JString s \<Rightarrow> Inr (Some (JString (replace_all c CHR ''-'' s)))
      | _ \<Rightarrow> Inl (TypeError ''replace is not a function''))"

definition derive_name :: "jsval \<Rightarrow> error + jsval option" where
  "derive_name item =
     (if item = JNull then Inl (TypeError ''Cannot read properties of null (reading name)'')
      else if truthy (member_of item ''name'') then Inr (Some (first_of item ''name''))
      else if has_first item ''application'' then Inr (Some (first_of item ''application''))
      else if has_first item ''layout'' then replace_in (first_of item ''layout'') CHR ''/''
      else if has_first item ''object'' then Inr (Some (first_of item ''object''))
      else if has_first item ''field'' then replace_in (first_of item ''field'') CHR ''.''
      else if has_first item ''apexClass'' then Inr (Some (first_of item ''apexClass''))
      else if has_first item ''apexPage'' then Inr (Some (first_of item ''apexPage''))
      else Inr None)"

definition itemName :: "double \<Rightarrow> jsval \<Rightarrow> error + string" where
  "itemName r item =
     (case derive_name item of
        Inl e \<Rightarrow> Inl e
      | Inr None \<Rightarrow> Inr (random_name r)
      | Inr (Some v) \<Rightarrow> Inr (to_string v))"

section \<open>Documents and the codec\<close>

text \<open>
  The commands read and write XML through \<^verbatim>\<open>xml2js\<close>, a dependency that is not
  part of the repository; the model follows the parser and the builder with the options
  that \<^verbatim>\<open>new xml2js.Parser()\<close> and \<^verbatim>\<open>new xml2js.Builder()\<close> set.

  A document is represented by its tree: an element has a name, attributes and children,
  which are elements and texts. The XML declaration, comments, and the white space that
  the builder adds to indent elements (and that the parser drops where an element holds
  elements only) are not represented; the model is exact for documents in which no element
  holds both text and elements. Element names are XML names, none of them
  \<^verbatim>\<open>_\<close> and none the name of a member of \<^verbatim>\<open>Object.prototype\<close>.
  A file holds a document, or text that is not well-formed XML (with the message of the
  parser's error), or nothing but white space.
\<close>

datatype xml = Element string "(string \<times> string) list" "xml list" | Text string

datatype content = Blank | Malformed string | Document string "(string \<times> string) list" "xml list"

definition white_space :: "char list" where
  "white_space = [CHR '' '', CHR 0x09, CHR 0x0A, CHR 0x0B, CHR 0x0C, CHR 0x0D]"

text \<open>\<^verbatim>\<open>s.match(/^\s*$/)\<close>\<close>

definition blank :: "string \<Rightarrow> bool" where
  "blank s = list_all (\<lambda>c. c \<in> set white_space) s"

subsection \<open>The parser\<close>

text \<open>
  The parser collects the text of an element under the key \<^verbatim>\<open>_\<close>, its
  attributes under the key \<^verbatim>\<open>$\<close>, and each child element in a list under the
  child's name (\<^verbatim>\<open>explicitArray\<close>), the keys in the order of their first
  occurrence. When the element is closed, text that is blank is dropped; an element with no
  attribute and no child element becomes its text, blank or not.
\<close>

definition assignOrPush :: "(string \<times> jsval) list \<Rightarrow> string \<Rightarrow> jsval \<Rightarrow> (string \<times> jsval) list" where
  "assignOrPush obj key newValue =
     (case map_of obj key of
        None \<Rightarrow> obj @ [(key, JArray [newValue])]
      | Some (JArray xs) \<Rightarrow> AList.update key (JArray (xs @ [newValue])) obj
      | Some v \<Rightarrow> AList.update key (JArray [v, newValue]) obj)"

definition attributes_object :: "(string \<times> string) list \<Rightarrow> (string \<times> jsval) list" where
  "attributes_object attrs =
     (if attrs = [] then [] else [(''$'', JObject (map (\<lambda>(k, v). (k, JString v)) attrs))])"

fun text_of :: "xml list \<Rightarrow> string" where
  "text_of [] = []"
| "text_of (Text t # rest) = t @ text_of rest"
| "text_of (Element n a c # rest) = text_of rest"

definition close_tag :: "string \<Rightarrow> (string \<times> jsval) list \<Rightarrow> jsval" where
  "close_tag txt members =
     (if members = [] then JString txt
      else JObject ((if blank txt then [] else [(''_'', JString txt)]) @ members))"

fun parse_element :: "xml \<Rightarrow> jsval"
  and parse_children :: "xml list \<Rightarrow> (string \<times> jsval) list \<Rightarrow> (string \<times> jsval) list" where
  "parse_element (Text t) = JString t"
| "parse_element (Element n attrs kids) =
     close_tag (text_of kids) (attributes_object attrs @ parse_children kids [])"
| "parse_children [] obj = obj"
| "parse_children (Text t # rest) obj = parse_children rest obj"
| "parse_children (Element n a c # rest) obj =
     parse_children rest (assignOrPush obj n (parse_element (Element n a c)))"

text \<open>
  \<^verbatim>\<open>parser.parseStringPromise(text)\<close>: the result has the root element under its
  name (\<^verbatim>\<open>explicitRoot\<close>); it is null for a text that is blank.
\<close>

definition parseStringPromise :: "content \<Rightarrow> error + jsval" where
  "parseStringPromise c =
     (case c of
        Blank \<Rightarrow> Inr JNull
      | Malformed m \<Rightarrow> Inl (ParseError m)
      | Document n attrs kids \<Rightarrow> Inr (JObject [(n, parse_element (Element n attrs kids))]))"

subsection \<open>The builder\<close>

text \<open>
  \<^verbatim>\<open>render\<close> gives the attributes and the children that a value adds to the
  element it is rendered into. Of an object, the member \<^verbatim>\<open>$\<close> gives the
  attributes and the member \<^verbatim>\<open>_\<close> a text; every other member gives child
  elements of its name: one for each entry of a list, one for an object, and one holding
  the text for a string (the empty text for undefined). In particular a string member is
  never an attribute. The values that the commands hand to the builder are made of strings,
  of objects and of lists of those; for the remaining shapes (a list directly in a list, an
  undefined text) the library raises or names elements by indices, and the model gives
  nothing.
\<close>

fun render :: "jsval \<Rightarrow> (string \<times> string) list \<times> xml list"
  and render_fields :: "(string \<times> jsval) list \<Rightarrow> (string \<times> string) list \<times> xml list"
  and render_entries :: "string \<Rightarrow> jsval list \<Rightarrow> xml list"
  and render_items :: "jsval list \<Rightarrow> xml list"
  and render_members :: "(string \<times> jsval) list \<Rightarrow> xml list" where
  "render JUndefined = ([], [])"
| "render JNull = ([], [])"
| "render (JString s) = ([], [Text s])"
| "render (JArray xs) = ([], render_items xs)"
| "render (JObject fs) = render_fields fs"
| "render_fields [] = ([], [])"
| "render_fields ((key, child) # fs) =
     (if key = ''$'' then
        (case child of
           JObject as \<Rightarrow> (map (\<lambda>(a, v). (a, to_string v)) as @ fst (render_fields fs),
                          snd (render_fields fs))
         | _ \<Rightarrow> render_fields fs)
      else if key = ''_'' then
        (fst (render_fields fs), Text (to_string child) # snd (render_fields fs))
      else
        (case child of
           JArray xs \<Rightarrow> (fst (render_fields fs), render_entries key xs @ snd (render_fields fs))
         | JObject gs \<Rightarrow>
             (fst (render_fields fs),
              Element key (fst (render child)) (snd (render child)) # snd (render_fields fs))
         | JNull \<Rightarrow> (fst (render_fields fs), Element key [] [] # snd (render_fields fs))
         | JString s \<Rightarrow> (fst (render_fields fs), Element key [] [Text s] # snd (render_fields fs))
         | JUndefined \<Rightarrow>
             (fst (render_fields fs), Element key [] [Text []] # snd (render_fields fs))))"
| "render_entries key [] = []"
| "render_entries key (x # xs) =
     (case x of
        JString s \<Rightarrow> Element key [] [Text s]
      | _ \<Rightarrow> Element key (fst (render x)) (snd (render x))) # render_entries key xs"
| "render_items [] = []"
| "render_items (x # xs) =
     (case x of JObject fs \<Rightarrow> render_members fs | _ \<Rightarrow> []) @ render_items xs"
| "render_members [] = []"
| "render_members ((key, entry) # fs) =
     Element key (fst (render entry)) (snd (render entry)) # render_members fs"

text \<open>
  \<^verbatim>\<open>builder.buildObject(rootObj)\<close>: an object with a single key names the root
  element after it; otherwise the root element is called \<^verbatim>\<open>root\<close>.
\<close>

definition buildObject :: "jsval \<Rightarrow> content" where
  "buildObject rootObj =
     (case rootObj of
        JObject [(rootName, body)] \<Rightarrow> Document rootName (fst (render body)) (snd (render body))
      | _ \<Rightarrow> Document ''root'' (fst (render rootObj)) (snd (render rootObj)))"


section \<open>The file system\<close>

text \<open>
  The file system is a tree. A directory holds its entries under their names; a path is
  the list of the names from the root: paths are absolute and normalized.
\<close>

datatype node = File content | Dir "(string \<times> node) list"

type_synonym path = "string list"

fun split_on :: "char \<Rightarrow> string \<Rightarrow> string list" where
  "split_on c [] = [[]]"
| "split_on c (x # xs) =
     (if x = c then [] # split_on c xs
      else (case split_on c xs of [] \<Rightarrow> [[x]] | s # ss \<Rightarrow> (x # s) # ss))"

fun normalize :: "path \<Rightarrow> string list \<Rightarrow> path" where
  "normalize p [] = p"
| "normalize p (s # ss) =
     (if s = [] \<or> s = ''.'' then normalize p ss
      else if s = ''..'' then normalize (butlast p) ss
      else normalize (p @ [s]) ss)"

text \<open>\<^verbatim>\<open>path.join(p, s)\<close> for a directory \<open>p\<close> and a string \<open>s\<close>.\<close>

definition path_join :: "path \<Rightarrow> string \<Rightarrow> path" where
  "path_join p s = normalize p (split_on CHR ''/'' s)"

definition ends_with :: "string \<Rightarrow> string \<Rightarrow> bool" where
  "ends_with suf s = (length suf \<le> length s \<and> drop (length s - length suf) s = suf)"

definition basename :: "path \<Rightarrow> string" where
  "basename p = (if p = [] then [] else last p)"

text \<open>
  \<^verbatim>\<open>path.basename(p, ext)\<close>: the extension is removed unless the name would
  become empty.
\<close>

definition basename_ext :: "path \<Rightarrow> string \<Rightarrow> string" where
  "basename_ext p ext =
     (let b = basename p
      in if ends_with ext b \<and> length ext < length b then take (length b - length ext) b else b)"

definition render_path :: "path \<Rightarrow> string" where
  "render_path p = concat (map (\<lambda>s. CHR ''/'' # s) p)"

fun lookup :: "node \<Rightarrow> path \<Rightarrow> node option" where
  "lookup n [] = Some n"
| "lookup (File c) (x # xs) = None"
| "lookup (Dir es) (x # xs) = (case map_of es x of None \<Rightarrow> None | Some ch \<Rightarrow> lookup ch xs)"

definition existsSync :: "node \<Rightarrow> path \<Rightarrow> bool" where
  "existsSync fsys p = (lookup fsys p \<noteq> None)"

text \<open>\<^verbatim>\<open>fs.statSync(p).isDirectory()\<close>\<close>

definition isDirectory :: "node \<Rightarrow> path \<Rightarrow> error + bool" where
  "isDirectory fsys p =
     (case lookup fsys p of
        None \<Rightarrow> Inl (SystemError ''ENOENT'')
      | Some (File c) \<Rightarrow> Inr False
      | Some (Dir es) \<Rightarrow> Inr True)"

text \<open>
  \<^verbatim>\<open>fs.readdirSync(p)\<close> gives the names in the directory sorted, in the order of
  their character codes (the order in which \<^verbatim>\<open>scandir\<close> delivers them to Node), a
  name before the names that it is a proper prefix of.
\<close>

definition readdirSync :: "node \<Rightarrow> path \<Rightarrow> error + string list" where
  "readdirSync fsys p =
     (case lookup fsys p of
        None \<Rightarrow> Inl (SystemError ''ENOENT'')
      | Some (File c) \<Rightarrow> Inl (SystemError ''ENOTDIR'')
      | Some (Dir es) \<Rightarrow> Inr (sort (map fst es)))"

definition readFileSync :: "node \<Rightarrow> path \<Rightarrow> error + content" where
  "readFileSync fsys p =
     (case lookup fsys p of
        None \<Rightarrow> Inl (SystemError ''ENOENT'')
      | Some (File c) \<Rightarrow> Inr c
      | Some (Dir es) \<Rightarrow> Inl (SystemError ''EISDIR''))"

text \<open>\<^verbatim>\<open>fs.mkdirSync(p, { recursive: true })\<close>\<close>

fun mkdirSync :: "node \<Rightarrow> path \<Rightarrow> error + node" where
  "mkdirSync (File c) [] = Inl (SystemError ''EEXIST'')"
| "mkdirSync (File c) (x # xs) = Inl (SystemError ''ENOTDIR'')"
| "mkdirSync (Dir es) [] = Inr (Dir es)"
| "mkdirSync (Dir es) (x # xs) =
     (case mkdirSync (case map_of es x of None \<Rightarrow> Dir [] | Some ch \<Rightarrow> ch) xs of
        Inl e \<Rightarrow> Inl e
      | Inr ch' \<Rightarrow> Inr (Dir (AList.update x ch' es)))"

fun writeFileSync :: "node \<Rightarrow> path \<Rightarrow> content \<Rightarrow> error + node" where
  "writeFileSync (File old) [] c = Inr (File c)"
| "writeFileSync (File old) (x # xs) c = Inl (SystemError ''ENOTDIR'')"
| "writeFileSync (Dir es) [] c = Inl (SystemError ''EISDIR'')"
| "writeFileSync (Dir es) (x # xs) c =
     (case map_of es x of
        None \<Rightarrow>
          (if xs = [] then Inr (Dir (AList.update x (File c) es))
           else Inl (SystemError ''ENOENT''))
      | Some ch \<Rightarrow>
          (case writeFileSync ch xs c of
             Inl e \<Rightarrow> Inl e
           | Inr ch' \<Rightarrow> Inr (Dir (AList.update x ch' es))))"

fun unlinkSync :: "node \<Rightarrow> path \<Rightarrow> error + node" where
  "unlinkSync (File c) p = Inl (SystemError ''ENOTDIR'')"
| "unlinkSync (Dir es) [] = Inl (SystemError ''EISDIR'')"
| "unlinkSync (Dir es) [x] =
     (case map_of es x of
        None \<Rightarrow> Inl (SystemError ''ENOENT'')
      | Some (Dir sub) \<Rightarrow> Inl (SystemError ''EISDIR'')
      | Some (File c) \<Rightarrow> Inr (Dir (AList.delete x es)))"
| "unlinkSync (Dir es) (x # y # ys) =
     (case map_of es x of
        None \<Rightarrow> Inl (SystemError ''ENOENT'')
      | Some ch \<Rightarrow>
          (case unlinkSync ch (y # ys) of
             Inl e \<Rightarrow> Inl e
           | Inr ch' \<Rightarrow> Inr (Dir (AList.update x ch' es))))"

fun rmdirSync :: "node \<Rightarrow> path \<Rightarrow> error + node" where
  "rmdirSync (File c) p = Inl (SystemError ''ENOTDIR'')"
| "rmdirSync (Dir es) [] = Inl (SystemError ''EBUSY'')"
| "rmdirSync (Dir es) [x] =
     (case map_of es x of
        None \<Rightarrow> Inl (SystemError ''ENOENT'')
      | Some (File c) \<Rightarrow> Inl (SystemError ''ENOTDIR'')
      | Some (Dir sub) \<Rightarrow>
          (if sub = [] then Inr (Dir (AList.delete x es))
           else Inl (SystemError ''ENOTEMPTY'')))"
| "rmdirSync (Dir es) (x # y # ys) =
     (case map_of es x of
        None \<Rightarrow> Inl (SystemError ''ENOENT'')
      | Some ch \<Rightarrow>
          (case rmdirSync ch (y # ys) of
             Inl e \<Rightarrow> Inl e
           | Inr ch' \<Rightarrow> Inr (Dir (AList.update x ch' es))))"

text \<open>
  The state of a run: the file system and the numbers that \<^verbatim>\<open>Math.random()\<close>
  is still to return. A step ends by returning or by throwing; the state it has reached
  is kept in both cases. Progress lines written with \<^verbatim>\<open>this.log\<close> have no
  effect on the files or on the control flow and are not part of the state.
\<close>

record state =
  files :: node
  randoms :: "nat \<Rightarrow> double"

datatype 's outcome = Returned 's | Thrown error 's

text \<open>
  \<^verbatim>\<open>this.error(msg)\<close> is the method \<^verbatim>\<open>error\<close> that
  \<^verbatim>\<open>SfCommand\<close> inherits from the command class of oclif. Called with a
  message and no \<^verbatim>\<open>exit: false\<close> option, as everywhere in this repository, it
  does not return: it throws an error that carries the message.
\<close>

definition this_error :: "string \<Rightarrow> 's \<Rightarrow> 's outcome" where
  "this_error msg st = Thrown (CLIError msg) st"

text \<open>The guarded directory creation used throughout.\<close>

definition ensure_dir :: "path \<Rightarrow> state \<Rightarrow> state outcome" where
  "ensure_dir p st =
     (if existsSync (files st) p then Returned st
      else (case mkdirSync (files st) p of
              Inl e \<Rightarrow> Thrown e st
            | Inr fsys \<Rightarrow> Returned (st\<lparr>files := fsys\<rparr>)))"

text \<open>
  A \<^verbatim>\<open>for (const x of xs)\<close> loop whose body may throw: the first throw ends
  the loop.
\<close>

fun for_each :: "('a \<Rightarrow> 's \<Rightarrow> 's outcome) \<Rightarrow> 'a list \<Rightarrow> 's \<Rightarrow> 's outcome" where
  "for_each body [] st = Returned st"
| "for_each body (x # xs) st =
     (case body x st of
        Thrown e s \<Rightarrow> Thrown e s
      | Returned s \<Rightarrow> for_each body xs s)"

section \<open>The Splitter (split.ts)\<close>

text \<open>\<^verbatim>\<open>Object.entries(v)\<close>\<close>

definition entries :: "jsval \<Rightarrow> error + (string \<times> jsval) list" where
  "entries v =
     (case v of
        JUndefined \<Rightarrow> Inl (TypeError ''Cannot convert undefined or null to object'')
      | JNull \<Rightarrow> Inl (TypeError ''Cannot convert undefined or null to object'')
      | JString s \<Rightarrow> Inr (zip (map show_nat [0..<length s]) (map (\<lambda>c. JString [c]) s))
      | JArray xs \<Rightarrow> Inr (zip (map show_nat [0..<length xs]) xs)
      | JObject fs \<Rightarrow> Inr fs)"

text \<open>
  The object handed to the builder at line 147,
  \<^verbatim>\<open>{ Profile: { [key]: [item], _xmlns: profile._xmlns } }\<close>. When the key is
  \<^verbatim>\<open>_xmlns\<close> itself the second property replaces the first.
\<close>

definition artifact :: "jsval \<Rightarrow> string \<Rightarrow> jsval \<Rightarrow> jsval" where
  "artifact profile key item =
     JObject [(''Profile'',
       JObject (AList.update ''_xmlns'' (member_of profile ''_xmlns'') [(key, JArray [item])]))]"

text \<open>The body of the loop over the items of a category (lines 120 to 155).\<close>

definition split_item :: "path \<Rightarrow> string \<Rightarrow> jsval \<Rightarrow> jsval \<Rightarrow> state \<Rightarrow> state outcome" where
  "split_item categoryDir key profile item st =
     (if typeof_object item then
        (case itemName (randoms st 0) item of
           Inl e \<Rightarrow> Thrown e st
         | Inr nm \<Rightarrow>
             (let st1 = (if derive_name item = Inr None
                         then st\<lparr>randoms := (\<lambda>n. randoms st (Suc n))\<rparr> else st);
                  itemXml = buildObject (artifact profile key item);
                  itemPath = path_join categoryDir (nm @ ''.xml'')
              in case writeFileSync (files st1) itemPath itemXml of
                   Inl e \<Rightarrow> Thrown e st1
                 | Inr fsys \<Rightarrow> Returned (st1\<lparr>files := fsys\<rparr>)))
      else Returned st)"

text \<open>The body of the loop over the entries of the profile (lines 111 to 157).\<close>

definition split_category :: "path \<Rightarrow> jsval \<Rightarrow> string \<times> jsval \<Rightarrow> state \<Rightarrow> state outcome" where
  "split_category profileDir profile entry st =
     (case snd entry of
        JArray items \<Rightarrow>
          (if items \<noteq> [] then
             (let categoryDir = path_join profileDir (fst entry)
              in case ensure_dir categoryDir st of
                   Thrown e s \<Rightarrow> Thrown e s
                 | Returned st1 \<Rightarrow>
                     for_each (split_item categoryDir (fst entry) profile) items st1)
           else Returned st)
      | _ \<Rightarrow> Returned st)"

text \<open>The \<^verbatim>\<open>try\<close> block of \<^verbatim>\<open>splitProfile\<close> (lines 100 to 157).\<close>

definition split_try :: "path \<Rightarrow> string \<Rightarrow> content \<Rightarrow> state \<Rightarrow> state outcome" where
  "split_try outputDir profileName profileContent st =
     (case parseStringPromise profileContent of
        Inl e \<Rightarrow> Thrown e st
      | Inr result \<Rightarrow>
          (case get result ''Profile'' of
             Inl e \<Rightarrow> Thrown e st
           | Inr profile \<Rightarrow>
               (let profileDir = path_join outputDir profileName
                in case ensure_dir profileDir st of
                     Thrown e s \<Rightarrow> Thrown e s
                   | Returned st1 \<Rightarrow>
                       (case entries profile of
                          Inl e \<Rightarrow> Thrown e st1
                        | Inr es \<Rightarrow> for_each (split_category profileDir profile) es st1))))"

definition splitProfile :: "path \<Rightarrow> path \<Rightarrow> state \<Rightarrow> state outcome" where
  "splitProfile profileFile outputDir st =
     (let profileName = basename_ext profileFile ''.profile-meta.xml''
      in case readFileSync (files st) profileFile of
           Inl e \<Rightarrow> Thrown e st
         | Inr profileContent \<Rightarrow>
             (case split_try outputDir profileName profileContent st of
                Thrown e s \<Rightarrow>
                  this_error (''Error processing profile '' @ profileName @ '': '' @ message e) s
              | Returned s \<Rightarrow> Returned s))"

definition unlink_original :: "path \<Rightarrow> state \<Rightarrow> state outcome" where
  "unlink_original profileFile st =
     (case unlinkSync (files st) profileFile of
        Inl e \<Rightarrow> Thrown e st
      | Inr fsys \<Rightarrow> Returned (st\<lparr>files := fsys\<rparr>))"

text \<open>
  \<^verbatim>\<open>Split.run\<close> (lines 46 to 91), from the parsed flags on: the input directory,
  the output directory and the delete flag.
\<close>

definition profile_files :: "path \<Rightarrow> string list \<Rightarrow> path list" where
  "profile_files inputDir names =
     map (path_join inputDir) (filter (ends_with ''.profile-meta.xml'') names)"

definition Split_run :: "path \<Rightarrow> path \<Rightarrow> bool \<Rightarrow> state \<Rightarrow> state outcome" where
  "Split_run inputDir outputDir shouldDelete st =
     (if \<not> existsSync (files st) inputDir
      then Thrown (Error (''Input directory '' @ render_path inputDir @ '' does not exist'')) st
      else
        (case ensure_dir outputDir st of
           Thrown e s \<Rightarrow> Thrown e s
         | Returned st1 \<Rightarrow>
             (case readdirSync (files st1) inputDir of
                Inl e \<Rightarrow> Thrown e st1
              | Inr names \<Rightarrow>
                  (if profile_files inputDir names = [] then Returned st1
                   else
                     (case for_each (\<lambda>profileFile. splitProfile profileFile outputDir)
                             (profile_files inputDir names) st1 of
                        Thrown e s \<Rightarrow> Thrown e s
                      | Returned st2 \<Rightarrow>
                          (if shouldDelete
                           then for_each unlink_original (profile_files inputDir names) st2
                           else Returned st2))))))"

section \<open>The Merger (merge.ts)\<close>

definition canonical_xmlns :: string where
  "canonical_xmlns = ''http://soap.sforce.com/2006/04/metadata''"

text \<open>
  The names that the object literal of line 98 inherits from \<^verbatim>\<open>Object.prototype\<close>.
  Read through \<^verbatim>\<open>profile[categoryName]\<close> they give a function (or, for
  \<^verbatim>\<open>__proto__\<close>, the prototype object): a truthy value that has no
  \<^verbatim>\<open>push\<close>.
\<close>

definition object_prototype_names :: "string list" where
  "object_prototype_names =
     [''constructor'', ''hasOwnProperty'', ''isPrototypeOf'', ''propertyIsEnumerable'',
      ''toLocaleString'', ''toString'', ''valueOf'', ''__proto__'', ''__defineGetter__'',
      ''__defineSetter__'', ''__lookupGetter__'', ''__lookupSetter__'']"

text \<open>
  Lines 132 to 137: \<^verbatim>\<open>if (!profile[categoryName]) profile[categoryName] = [];
  profile[categoryName].push(...items)\<close>.
\<close>

definition push_items ::
  "(string \<times> jsval) list \<Rightarrow> string \<Rightarrow> jsval list \<Rightarrow> error + (string \<times> jsval) list" where
  "push_items profile categoryName items =
     (case map_of profile categoryName of
        None \<Rightarrow>
          (if categoryName \<in> set object_prototype_names
           then Inl (TypeError ''profile[categoryName].push is not a function'')
           else Inr (AList.update categoryName (JArray items) profile))
      | Some v \<Rightarrow>
          (if \<not> truthy v then Inr (AList.update categoryName (JArray items) profile)
           else (case v of
                   JArray xs \<Rightarrow> Inr (AList.update categoryName (JArray (xs @ items)) profile)
                 | _ \<Rightarrow> Inl (TypeError ''profile[categoryName].push is not a function''))))"

text \<open>The \<^verbatim>\<open>try\<close> block of the loop over the item files (lines 122 to 139).\<close>

definition merge_item_try ::
  "node \<Rightarrow> string \<Rightarrow> path \<Rightarrow> (string \<times> jsval) list \<Rightarrow> error + (string \<times> jsval) list" where
  "merge_item_try fsys categoryName itemFile profile =
     (case readFileSync fsys itemFile of
        Inl e \<Rightarrow> Inl e
      | Inr itemContent \<Rightarrow>
          (case parseStringPromise itemContent of
             Inl e \<Rightarrow> Inl e
           | Inr result \<Rightarrow>
               (case get result ''Profile'' of
                  Inl e \<Rightarrow> Inl e
                | Inr p \<Rightarrow>
                    (if truthy p \<and> truthy (member_of p categoryName) then
                       (case member_of p categoryName of
                          JArray items \<Rightarrow>
                            (if items \<noteq> [] then push_items profile categoryName items
                             else Inr profile)
                        | _ \<Rightarrow> Inr profile)
                     else Inr profile))))"

definition merge_item ::
  "node \<Rightarrow> string \<Rightarrow> path \<Rightarrow> (string \<times> jsval) list \<Rightarrow> (string \<times> jsval) list outcome" where
  "merge_item fsys categoryName itemFile profile =
     (case merge_item_try fsys categoryName itemFile profile of
        Inl e \<Rightarrow>
          this_error (''Error processing item file '' @ render_path itemFile @ '': '' @ message e)
            profile
      | Inr profile' \<Rightarrow> Returned profile')"

definition item_files :: "path \<Rightarrow> string list \<Rightarrow> path list" where
  "item_files categoryDir names = map (path_join categoryDir) (filter (ends_with ''.xml'') names)"

text \<open>The body of the loop over the category directories (lines 107 to 144).\<close>

definition merge_category ::
  "node \<Rightarrow> path \<Rightarrow> (string \<times> jsval) list \<Rightarrow> (string \<times> jsval) list outcome" where
  "merge_category fsys categoryDir profile =
     (case readdirSync fsys categoryDir of
        Inl e \<Rightarrow> Thrown e profile
      | Inr names \<Rightarrow>
          (if item_files categoryDir names = [] then Returned profile
           else for_each (merge_item fsys (basename categoryDir)) (item_files categoryDir names)
                  profile))"

text \<open>
  \<^verbatim>\<open>readdirSync(dir).filter(isDirectory).map(join)\<close>, the directories directly
  under a directory.
\<close>

fun filter_dirs :: "node \<Rightarrow> path \<Rightarrow> string list \<Rightarrow> error + string list" where
  "filter_dirs fsys dir [] = Inr []"
| "filter_dirs fsys dir (x # xs) =
     (case isDirectory fsys (path_join dir x) of
        Inl e \<Rightarrow> Inl e
      | Inr b \<Rightarrow>
          (case filter_dirs fsys dir xs of
             Inl e \<Rightarrow> Inl e
           | Inr ds \<Rightarrow> Inr (if b then x # ds else ds)))"

definition subdirectories :: "node \<Rightarrow> path \<Rightarrow> error + path list" where
  "subdirectories fsys dir =
     (case readdirSync fsys dir of
        Inl e \<Rightarrow> Inl e
      | Inr names \<Rightarrow>
          (case filter_dirs fsys dir names of
             Inl e \<Rightarrow> Inl e
           | Inr ds \<Rightarrow> Inr (map (path_join dir) ds)))"

text \<open>
  The object that \<^verbatim>\<open>mergeProfile\<close> has accumulated when its loops end
  (lines 98 to 144), and \<^verbatim>\<open>mergeProfile\<close> itself, which writes it.
\<close>

definition merged_profile :: "node \<Rightarrow> path \<Rightarrow> error + (string \<times> jsval) list" where
  "merged_profile fsys profileDir =
     (case subdirectories fsys profileDir of
        Inl e \<Rightarrow> Inl e
      | Inr categoryDirs \<Rightarrow>
          (case for_each (merge_category fsys) categoryDirs
                  [(''_xmlns'', JString canonical_xmlns)] of
             Thrown e p \<Rightarrow> Inl e
           | Returned profile \<Rightarrow> Inr profile))"

definition mergeProfile :: "path \<Rightarrow> path \<Rightarrow> state \<Rightarrow> state outcome" where
  "mergeProfile profileDir outputDir st =
     (case merged_profile (files st) profileDir of
        Inl e \<Rightarrow> Thrown e st
      | Inr profile \<Rightarrow>
          (let profileXml = buildObject (JObject [(''Profile'', JObject profile)]);
               outputFile = path_join outputDir (basename profileDir @ ''.profile-meta.xml'')
           in case writeFileSync (files st) outputFile profileXml of
                Inl e \<Rightarrow> Thrown e st
              | Inr fsys \<Rightarrow> Returned (st\<lparr>files := fsys\<rparr>)))"

text \<open>
  \<^verbatim>\<open>deleteDirectory\<close> (lines 156 to 168). The recursion follows the directory
  found at the path: its entries are those \<^verbatim>\<open>readdirSync\<close> returned, in that
  order, and an entry is a directory exactly when \<^verbatim>\<open>statSync\<close> says so.
\<close>

function deleteDirectory_in :: "node \<Rightarrow> path \<Rightarrow> node \<Rightarrow> node outcome"
  and deleteDirectory_entries :: "(string \<times> node) list \<Rightarrow> path \<Rightarrow> node \<Rightarrow> node outcome" where
  "deleteDirectory_in (File c) directory fsys = Thrown (SystemError ''ENOTDIR'') fsys"
| "deleteDirectory_in (Dir es) directory fsys =
     (case deleteDirectory_entries (sort_key fst es) directory fsys of
        Thrown e s \<Rightarrow> Thrown e s
      | Returned s \<Rightarrow>
          (case rmdirSync s directory of
             Inl e \<Rightarrow> Thrown e s
           | Inr s' \<Rightarrow> Returned s'))"
| "deleteDirectory_entries [] directory fsys = Returned fsys"
| "deleteDirectory_entries (entry # rest) directory fsys =
     (case (case snd entry of
              Dir sub \<Rightarrow> deleteDirectory_in (snd entry) (path_join directory (fst entry)) fsys
            | File c \<Rightarrow>
                (case unlinkSync fsys (path_join directory (fst entry)) of
                   Inl e \<Rightarrow> Thrown e fsys
                 | Inr s \<Rightarrow> Returned s)) of
        Thrown e s \<Rightarrow> Thrown e s
      | Returned s \<Rightarrow> deleteDirectory_entries rest directory s)"
  by pat_completeness auto

termination
proof (relation "measure (\<lambda>x. case x of
    Inl (n, directory, fsys) \<Rightarrow> 2 * size n
  | Inr (es, directory, fsys) \<Rightarrow> 2 * size_list (size_prod (\<lambda>x. 0) size) es + 1)")
  show "wf (measure (\<lambda>x. case x of
      Inl (n, directory, fsys) \<Rightarrow> 2 * size n
    | Inr (es, directory, fsys) \<Rightarrow> 2 * size_list (size_prod (\<lambda>x. 0) size) es + 1))"
    by simp
next
  fix es :: "(string \<times> node) list" and directory :: path and fsys :: node
  have "size_list (size_prod (\<lambda>x. 0) size) (sort_key fst es) = size_list (size_prod (\<lambda>x. 0) size) es"
  proof -
    have "mset (sort_key fst es) = mset es" by simp
    then have "sum_mset (image_mset (size_prod (\<lambda>x. 0) size) (mset (sort_key fst es)))
               = sum_mset (image_mset (size_prod (\<lambda>x. 0) size) (mset es))"
      by (simp only:)
    then have "sum_list (map (size_prod (\<lambda>x. 0) size) (sort_key fst es))
               = sum_list (map (size_prod (\<lambda>x. 0) size) es)"
      by (simp only: sum_mset_sum_list[symmetric] mset_map)
    then show ?thesis by (simp add: size_list_conv_sum_list)
  qed
  then show "(Inr (sort_key fst es, directory, fsys), Inl (Dir es, directory, fsys))
      \<in> measure (\<lambda>x. case x of
          Inl (n, directory, fsys) \<Rightarrow> 2 * size n
        | Inr (es, directory, fsys) \<Rightarrow> 2 * size_list (size_prod (\<lambda>x. 0) size) es + 1)"
    by (simp add: size_list_conv_sum_list)
qed auto

definition deleteDirectory :: "path \<Rightarrow> state \<Rightarrow> state outcome" where
  "deleteDirectory directory st =
     (case lookup (files st) directory of
        None \<Rightarrow> Returned st
      | Some n \<Rightarrow>
          (case deleteDirectory_in n directory (files st) of
             Thrown e s \<Rightarrow> Thrown e (st\<lparr>files := s\<rparr>)
           | Returned s \<Rightarrow> Returned (st\<lparr>files := s\<rparr>)))"

text \<open>\<^verbatim>\<open>Merge.run\<close> (lines 46 to 91), from the parsed flags on.\<close>

definition Merge_run :: "path \<Rightarrow> path \<Rightarrow> bool \<Rightarrow> state \<Rightarrow> state outcome" where
  "Merge_run inputDir outputDir shouldDelete st =
     (if \<not> existsSync (files st) inputDir
      then Thrown (Error (''Input directory '' @ render_path inputDir @ '' does not exist'')) st
      else
        (case ensure_dir outputDir st of
           Thrown e s \<Rightarrow> Thrown e s
         | Returned st1 \<Rightarrow>
             (case subdirectories (files st1) inputDir of
                Inl e \<Rightarrow> Thrown e st1
              | Inr profileDirs \<Rightarrow>
                  (if profileDirs = [] then Returned st1
                   else
                     (case for_each (\<lambda>profileDir. mergeProfile profileDir outputDir)
                             profileDirs st1 of
                        Thrown e s \<Rightarrow> Thrown e s
                      | Returned st2 \<Rightarrow>
                          (if shouldDelete then for_each deleteDirectory profileDirs st2
                           else Returned st2))))))"


section \<open>Notions used to state the properties\<close>

text \<open>The state in which a step ends, whether it returns or throws.\<close>

fun final :: "'s outcome \<Rightarrow> 's" where
  "final (Returned s) = s"
| "final (Thrown e s) = s"

text \<open>A name that \<^verbatim>\<open>path.join\<close> appends unchanged: a single path segment.\<close>

definition simple_name :: "string \<Rightarrow> bool" where
  "simple_name s = (s \<noteq> [] \<and> s \<noteq> ''.'' \<and> s \<noteq> ''..'' \<and> CHR ''/'' \<notin> set s)"

definition file_at :: "node \<Rightarrow> path \<Rightarrow> content option" where
  "file_at fsys p = (case lookup fsys p of Some (File c) \<Rightarrow> Some c | _ \<Rightarrow> None)"

definition dir_at :: "node \<Rightarrow> path \<Rightarrow> bool" where
  "dir_at fsys p = (case lookup fsys p of Some (Dir es) \<Rightarrow> True | _ \<Rightarrow> False)"

subsection \<open>The naming rule in the words of the specification\<close>

text \<open>
  A field is present in a record when reading it does not give undefined. The
  specification's rule: go through the precedence list and take the first field that is
  present, with the replacement that the list attaches to it; draw a placeholder when none
  is.
\<close>

definition present :: "jsval \<Rightarrow> string \<Rightarrow> bool" where
  "present item k = (member_of item k \<noteq> JUndefined)"

definition precedence :: "(string \<times> (string \<Rightarrow> string)) list" where
  "precedence =
     [(''name'', id), (''application'', id), (''layout'', replace_all CHR ''/'' CHR ''-''),
      (''object'', id), (''field'', replace_all CHR ''.'' CHR ''-''), (''apexClass'', id),
      (''apexPage'', id)]"

definition name_by_presence :: "double \<Rightarrow> jsval \<Rightarrow> string" where
  "name_by_presence r item =
     (case List.find (\<lambda>(k, f). present item k) precedence of
        Some (k, f) \<Rightarrow> f (to_string (first_of item k))
      | None \<Rightarrow> random_name r)"

text \<open>
  The rule as amended: \<^verbatim>\<open>name\<close> wins when it is present; each later field of the
  list counts only when its first value is not the empty text.
\<close>

definition has_text :: "jsval \<Rightarrow> string \<Rightarrow> bool" where
  "has_text item k = (present item k \<and> first_of item k \<noteq> JString [])"

definition name_by_value :: "double \<Rightarrow> jsval \<Rightarrow> string" where
  "name_by_value r item =
     (if present item ''name'' then to_string (first_of item ''name'')
      else (case List.find (\<lambda>(k, f). has_text item k) (tl precedence) of
              Some (k, f) \<Rightarrow> f (to_string (first_of item k))
            | None \<Rightarrow> random_name r))"

text \<open>
  A record as the parser delivers it when the identifying fields hold text: an object in
  which each field of the precedence list, where present, is a list that starts with a
  string.
\<close>

definition text_field :: "jsval \<Rightarrow> bool" where
  "text_field v = (case v of JArray (JString s # rest) \<Rightarrow> True | _ \<Rightarrow> False)"

definition text_record :: "jsval \<Rightarrow> bool" where
  "text_record item =
     (case item of
        JObject fs \<Rightarrow>
          list_all (\<lambda>(k, f). case map_of fs k of None \<Rightarrow> True | Some v \<Rightarrow> text_field v) precedence
      | _ \<Rightarrow> False)"

fun returned :: "'s outcome \<Rightarrow> bool" where
  "returned (Returned s) = True"
| "returned (Thrown e s) = False"

text \<open>A profile none of whose entries is a list with an element.\<close>

definition no_records :: "(string \<times> jsval) list \<Rightarrow> bool" where
  "no_records es =
     list_all (\<lambda>entry. case snd entry of JArray items \<Rightarrow> items = [] | _ \<Rightarrow> True) es"

text \<open>The attributes of the root element of a document.\<close>

fun root_attributes :: "content \<Rightarrow> (string \<times> string) list" where
  "root_attributes (Document n attrs kids) = attrs"
| "root_attributes c = []"

fun root_children :: "content \<Rightarrow> xml list" where
  "root_children (Document n attrs kids) = kids"
| "root_children c = []"

subsection \<open>A small installation, for concrete runs\<close>

text \<open>
  A profile document with a namespace declaration, a setting that is a text, a field
  permission and an element that is empty; the values that the parser makes of the field
  permission and of the root element; and a profile document with no element at all.
\<close>

definition example_record :: xml where
  "example_record =
     Element ''fieldPermissions'' []
       [Element ''editable'' [] [Text ''true''], Element ''field'' [] [Text ''Account.Name'']]"

definition example_document :: content where
  "example_document =
     Document ''Profile'' [(''xmlns'', ''urn:example'')]
       [Element ''custom'' [] [Text ''false''], example_record, Element ''loginHours'' [] []]"

definition example_item :: jsval where
  "example_item =
     JObject [(''editable'', JArray [JString ''true'']),
              (''field'', JArray [JString ''Account.Name''])]"

definition example_profile :: jsval where
  "example_profile =
     JObject [(''$'', JObject [(''xmlns'', JString ''urn:example'')]),
              (''custom'', JArray [JString ''false'']),
              (''fieldPermissions'', JArray [example_item]),
              (''loginHours'', JArray [JString []])]"

definition example_bare :: content where
  "example_bare = Document ''Profile'' [(''xmlns'', ''urn:example'')] []"

text \<open>
  The artifact that the split of the example writes for the field permission, and the
  document that the merge of that artifact writes.
\<close>

definition example_artifact :: content where
  "example_artifact =
     Document ''Profile'' [] [example_record, Element ''_xmlns'' [] [Text []]]"

definition example_merged :: content where
  "example_merged =
     Document ''Profile'' []
       [Element ''_xmlns'' [] [Text ''http://soap.sforce.com/2006/04/metadata''], example_record]"

definition example_tree :: node where
  "example_tree =
     Dir [(''in'',
           Dir [(''Admin.profile-meta.xml'', File example_document),
                (''Bare.profile-meta.xml'', File example_bare)]),
          (''out'', Dir [])]"

definition example_state :: state where
  "example_state = \<lparr>files = example_tree, randoms = (\<lambda>n. Double 1 1)\<rparr>"

text \<open>
  A split tree to merge: the artifact of the example, and beside it a file whose document
  has no entry for the category of the directory it lies in.
\<close>

definition stray_artifact :: content where
  "stray_artifact =
     Document ''Profile'' []
       [Element ''userPermissions'' []
          [Element ''enabled'' [] [Text ''true''], Element ''name'' [] [Text ''ApiEnabled'']],
        Element ''_xmlns'' [] [Text []]]"

definition example_split_state :: state where
  "example_split_state =
     \<lparr>files =
        Dir [(''split'',
              Dir [(''Admin'',
                    Dir [(''fieldPermissions'',
                          Dir [(''Account-Name.xml'', File example_artifact),
                               (''stray.xml'', File stray_artifact)])])]),
             (''merged'', Dir [])],
      randoms = (\<lambda>n. Double 1 1)\<rparr>"

text \<open>
  Batches of three units whose second unit is malformed, with the states in which the first
  unit has been processed; and the example installation after the split of both profiles
  and after the removal of the originals.
\<close>

definition batch_state :: state where
  "batch_state =
     \<lparr>files =
        Dir [(''in'',
              Dir [(''A.profile-meta.xml'', File example_document),
                   (''B.profile-meta.xml'', File (Malformed ''Unclosed root tag'')),
                   (''C.profile-meta.xml'', File example_document)]),
             (''out'', Dir [])],
      randoms = (\<lambda>n. Double 1 1)\<rparr>"

definition batch_state_after_A :: state where
  "batch_state_after_A =
     \<lparr>files =
        Dir [(''in'',
              Dir [(''A.profile-meta.xml'', File example_document),
                   (''B.profile-meta.xml'', File (Malformed ''Unclosed root tag'')),
                   (''C.profile-meta.xml'', File example_document)]),
             (''out'',
              Dir [(''A'',
                    Dir [(''custom'', Dir []),
                         (''fieldPermissions'', Dir [(''Account-Name.xml'', File example_artifact)]),
                         (''loginHours'', Dir [])])])],
      randoms = (\<lambda>n. Double 1 1)\<rparr>"

definition merge_batch_state :: state where
  "merge_batch_state =
     \<lparr>files =
        Dir [(''split'',
              Dir [(''A'',
                    Dir [(''fieldPermissions'',
                          Dir [(''Account-Name.xml'', File example_artifact)])]),
                   (''B'',
                    Dir [(''fieldPermissions'',
                          Dir [(''broken.xml'', File (Malformed ''Unexpected end''))])]),
                   (''C'', Dir [])]),
             (''merged'', Dir [])],
      randoms = (\<lambda>n. Double 1 1)\<rparr>"

definition merge_batch_state_after_A :: state where
  "merge_batch_state_after_A =
     \<lparr>files =
        Dir [(''split'',
              Dir [(''A'',
                    Dir [(''fieldPermissions'',
                          Dir [(''Account-Name.xml'', File example_artifact)])]),
                   (''B'',
                    Dir [(''fieldPermissions'',
                          Dir [(''broken.xml'', File (Malformed ''Unexpected end''))])]),
                   (''C'', Dir [])]),
             (''merged'', Dir [(''A.profile-meta.xml'', File example_merged)])],
      randoms = (\<lambda>n. Double 1 1)\<rparr>"

definition example_state_split :: state where
  "example_state_split =
     \<lparr>files =
         Dir [(''in'',
               Dir [(''Admin.profile-meta.xml'', File example_document),
                    (''Bare.profile-meta.xml'', File example_bare)]),
              (''out'',
               Dir [(''Admin'',
                     Dir [(''custom'', Dir []),
                          (''fieldPermissions'',
                           Dir [(''Account-Name.xml'', File example_artifact)]),
                          (''loginHours'', Dir [])]),
                    (''Bare'', Dir [])])],
         randoms = (\<lambda>n. Double 1 1)\<rparr>"

definition example_state_done :: state where
  "example_state_done =
     \<lparr>files =
         Dir [(''in'', Dir []),
              (''out'',
               Dir [(''Admin'',
                     Dir [(''custom'', Dir []),
                          (''fieldPermissions'',
                           Dir [(''Account-Name.xml'', File example_artifact)]),
                          (''loginHours'', Dir [])]),
                    (''Bare'', Dir [])])],
         randoms = (\<lambda>n. Double 1 1)\<rparr>"






subsection \<open>Well-formed trees, and trees with a part replaced or removed\<close>

text \<open>
  In a well-formed tree every directory lists its entries under single path segments, no
  two alike, as a file system does.
\<close>

fun well_formed :: "node \<Rightarrow> bool"
  and well_formed_entries :: "(string \<times> node) list \<Rightarrow> bool" where
  "well_formed (File c) = True"
| "well_formed (Dir es) = (distinct (map fst es) \<and> well_formed_entries es)"
| "well_formed_entries [] = True"
| "well_formed_entries (entry # rest) =
     (simple_name (fst entry) \<and> well_formed (snd entry) \<and> well_formed_entries rest)"

text \<open>
  The tree with the node at a path replaced, and the tree with the entry at a path removed.
  Both leave the tree as it is when the path leads nowhere.
\<close>

fun graft :: "path \<Rightarrow> node \<Rightarrow> node \<Rightarrow> node" where
  "graft [] n fsys = n"
| "graft (x # xs) n (File c) = File c"
| "graft (x # xs) n (Dir es) =
     (case map_of es x of
        None \<Rightarrow> Dir es
      | Some ch \<Rightarrow> Dir (AList.update x (graft xs n ch) es))"

fun remove_at :: "path \<Rightarrow> node \<Rightarrow> node" where
  "remove_at [] fsys = fsys"
| "remove_at (x # xs) (File c) = File c"
| "remove_at [x] (Dir es) = Dir (AList.delete x es)"
| "remove_at (x # y # ys) (Dir es) =
     (case map_of es x of
        None \<Rightarrow> Dir es
      | Some ch \<Rightarrow> Dir (AList.update x (remove_at (y # ys) ch) es))"


subsection \<open>The split tree of a profile\<close>

text \<open>
  The numbers still to be drawn after an item has been passed, and the file name under
  which the artifact of an item is written when \<open>r\<close> is the next number.
\<close>

definition next_randoms :: "jsval \<Rightarrow> (nat \<Rightarrow> double) \<Rightarrow> (nat \<Rightarrow> double)" where
  "next_randoms item rs =
     (if typeof_object item \<and> derive_name item = Inr None then (\<lambda>n. rs (Suc n)) else rs)"

definition file_name :: "double \<Rightarrow> jsval \<Rightarrow> string" where
  "file_name r item = (case itemName r item of Inl e \<Rightarrow> [] | Inr nm \<Rightarrow> nm @ ''.xml'')"


fun randoms_after :: "(nat \<Rightarrow> double) \<Rightarrow> jsval list \<Rightarrow> (nat \<Rightarrow> double)" where
  "randoms_after rs [] = rs"
| "randoms_after rs (item # items) = randoms_after (next_randoms item rs) items"




text \<open>
  The entries of the directory that a split creates for a category, and of the profile
  directory that it creates for a profile.
\<close>

fun cat_files :: "jsval \<Rightarrow> string \<Rightarrow> (nat \<Rightarrow> double) \<Rightarrow> jsval list \<Rightarrow> (string \<times> node) list" where
  "cat_files profile key rs [] = []"
| "cat_files profile key rs (item # items) =
     (if typeof_object item
      then [(file_name (rs 0) item, File (buildObject (artifact profile key item)))] else [])
       @ cat_files profile key (next_randoms item rs) items"

fun split_tree :: "jsval \<Rightarrow> (nat \<Rightarrow> double) \<Rightarrow> (string \<times> jsval) list \<Rightarrow> (string \<times> node) list" where
  "split_tree profile rs [] = []"
| "split_tree profile rs (entry # rest) =
     (case snd entry of
        JArray items \<Rightarrow>
          (if items \<noteq> []
           then (fst entry, Dir (cat_files profile (fst entry) rs items))
                  # split_tree profile (randoms_after rs items) rest
           else split_tree profile rs rest)
      | _ \<Rightarrow> split_tree profile rs rest)"


section \<open>Evaluation and basic facts\<close>

lemma show_nat_small: "n < 10 \<Longrightarrow> show_nat n = [digit_char n]"
  by (simp add: show_nat.simps)

lemma show_nat_large: "10 \<le> n \<Longrightarrow> show_nat n = show_nat (n div 10) @ [digit_char n]"
  by (subst show_nat.simps) simp

lemmas show_nat_eval = show_nat_small show_nat_large digit_char_def

lemma index_of_key_0: "index_of_key (Suc n) ''0'' = Some 0"
  by (simp add: index_of_key_def upt_conv_Cons show_nat_eval del: upt_Suc)

lemma split_on_absent: "c \<notin> set s \<Longrightarrow> split_on c s = [s]"
  by (induction s) auto

lemma path_join_simple: "simple_name s \<Longrightarrow> path_join p s = p @ [s]"
  by (simp add: path_join_def simple_name_def split_on_absent)

lemma bit_length_0: "bit_length 0 = 0"
  by (simp add: bit_length.simps)

lemma bit_length_pos: "0 < n \<Longrightarrow> bit_length n = Suc (bit_length (n div 2))"
  by (subst bit_length.simps) simp

lemma bit_length_upper: "n < 2 ^ bit_length n"
proof (induction n rule: bit_length.induct)
  case (1 n)
  show ?case
  proof (cases "n = 0")
    case True
    then show ?thesis by (simp add: bit_length_0)
  next
    case False
    with 1 have "n div 2 < 2 ^ bit_length (n div 2)" by simp
    then have "n < 2 * 2 ^ bit_length (n div 2)" by linarith
    with False show ?thesis by (simp add: bit_length_pos)
  qed
qed

lemma bit_length_lower: "0 < n \<Longrightarrow> 2 ^ (bit_length n - 1) \<le> n"
proof (induction n rule: bit_length.induct)
  case (1 n)
  show ?case
  proof (cases "n div 2 = 0")
    case True
    with "1.prems" have "n = 1" by (simp add: div_eq_0_iff) 
    then show ?thesis by (simp add: bit_length_pos bit_length_0)
  next
    case False
    with 1 have ih: "2 ^ (bit_length (n div 2) - 1) \<le> n div 2" by simp
    from False have p: "0 < bit_length (n div 2)" by (simp add: bit_length_pos)
    have "bit_length n - 1 = Suc (bit_length (n div 2) - 1)"
      using "1.prems" p by (simp add: bit_length_pos)
    then have "(2::nat) ^ (bit_length n - 1) = 2 * 2 ^ (bit_length (n div 2) - 1)" by simp
    also have "\<dots> \<le> 2 * (n div 2)" using ih by simp
    also have "\<dots> \<le> n" by simp
    finally show ?thesis .
  qed
qed

lemma bit_length_le: "n < 2 ^ b \<Longrightarrow> bit_length n \<le> b"
proof (cases "n = 0")
  case True
  then show ?thesis by (simp add: bit_length_0)
next
  case False
  assume "n < 2 ^ b"
  moreover from False have "(2::nat) ^ (bit_length n - 1) \<le> n"
    by (intro bit_length_lower) simp
  ultimately have "(2::nat) ^ (bit_length n - 1) < 2 ^ b" by (rule le_less_trans[rotated])
  then have "bit_length n - 1 < b" by (rule power_less_imp_less_exp[rotated]) simp
  then show ?thesis by simp
qed

lemma round_to_double_le: "round_to_double M \<le> M + 2 ^ (bit_length M - 53) div 2"
proof -
  let ?s = "bit_length M - 53"
  let ?q = "M div 2 ^ ?s" and ?r = "M mod 2 ^ ?s"
  have M: "M = ?q * 2 ^ ?s + ?r" by (simp only: div_mult_mod_eq)
  show ?thesis
  proof (cases "2 * ?r < 2 ^ ?s \<or> (2 * ?r = 2 ^ ?s \<and> even ?q)")
    case True
    then have "round_to_double M = ?q * 2 ^ ?s" by (simp add: round_to_double_def Let_def)
    with M show ?thesis by linarith
  next
    case False
    then have r: "2 ^ ?s \<le> 2 * ?r" by auto
    from False have "round_to_double M = (?q + 1) * 2 ^ ?s"
      by (simp add: round_to_double_def Let_def)
    then have "round_to_double M = ?q * 2 ^ ?s + 2 ^ ?s" by (simp add: algebra_simps)
    moreover have "(2::nat) ^ ?s \<le> ?r + 2 ^ ?s div 2" using r by linarith
    ultimately show ?thesis using M by linarith
  qed
qed

lemma random_integer_range: "unit_double r \<Longrightarrow> random_integer r < 10000"
proof (cases r)
  case (Double m k)
  assume "unit_double r"
  with Double have m: "m < 2 ^ 53" and mk: "m < 2 ^ k" by simp_all
  let ?M = "m * 10000"
  have "?M < 2 ^ 53 * 2 ^ 14" using m by (simp add: mult_strict_mono)
  then have "?M < 2 ^ 67" by simp
  then have "bit_length ?M \<le> 67" by (rule bit_length_le)
  then have "bit_length ?M - 53 \<le> 14" by simp
  then have "(2::nat) ^ (bit_length ?M - 53) \<le> 2 ^ 14"
    by (simp only: power_increasing_iff) 
  then have "(2::nat) ^ (bit_length ?M - 53) div 2 \<le> 8192" by simp
  with round_to_double_le[of ?M] have "round_to_double ?M < ?M + 10000" by linarith
  also have "\<dots> = (m + 1) * 10000" by simp
  also have "\<dots> \<le> 2 ^ k * 10000" using mk by (simp add: Suc_leI)
  finally have "round_to_double ?M < 10000 * 2 ^ k" by (simp add: mult.commute)
  then have "round_to_double ?M div 2 ^ k < 10000" by (rule less_mult_imp_div_less)
  with Double show ?thesis by simp
qed

lemmas double_eval = random_name_def round_to_double_def bit_length_0 bit_length_pos

section \<open>The Record Namer: precedence of the identifying fields\<close>

lemma member_of_text_field:
  "text_field v \<Longrightarrow> truthy v \<and> (\<exists>s. member_of v ''0'' = JString s)"
  by (auto simp: text_field_def index_of_key_0 split: jsval.splits list.splits)

lemma random_name_range:
  assumes "unit_double r"
  shows "\<exists>N<10000. random_name r = ''item-'' @ show_nat N"
  using random_integer_range[OF assms] unfolding random_name_def by blast

lemma field_cases:
  assumes "text_record item" "(k, f) \<in> set precedence"
  shows "(\<not> present item k \<and> member_of item k = JUndefined)
       \<or> (present item k \<and> truthy (member_of item k) \<and> (\<exists>s. first_of item k = JString s))"
proof -
  from assms(1) obtain fs where item: "item = JObject fs"
    and all: "list_all (\<lambda>(k, f). case map_of fs k of None \<Rightarrow> True | Some v \<Rightarrow> text_field v) precedence"
    by (auto simp: text_record_def split: jsval.splits)
  from all assms(2) have c: "case map_of fs k of None \<Rightarrow> True | Some v \<Rightarrow> text_field v"
    by (auto simp: list_all_iff)
  show ?thesis
  proof (cases "map_of fs k")
    case None
    then show ?thesis by (simp add: item present_def)
  next
    case (Some v)
    with c have tf: "text_field v" by simp
    from member_of_text_field[OF tf] Some show ?thesis
      by (auto simp: item present_def first_of_def text_field_def tf split: jsval.splits)
  qed
qed

lemma has_first_text:
  assumes "text_record item" "(k, f) \<in> set precedence"
  shows "has_first item k = has_text item k"
  using field_cases[OF assms] by (auto simp: has_first_def has_text_def present_def)

text \<open>
  C6, as amended. For every record whose identifying fields hold text, the name of the
  artifact is the first value of \<^verbatim>\<open>name\<close> when that field is present; otherwise
  it comes from the first of \<^verbatim>\<open>application\<close>, \<^verbatim>\<open>layout\<close> (every
  \<^verbatim>\<open>/\<close> replaced by \<^verbatim>\<open>-\<close>), \<^verbatim>\<open>object\<close>, \<^verbatim>\<open>field\<close>
  (every \<^verbatim>\<open>.\<close> replaced by \<^verbatim>\<open>-\<close>), \<^verbatim>\<open>apexClass\<close>,
  \<^verbatim>\<open>apexPage\<close> whose first value is present and not empty; when there is none the
  name is \<^verbatim>\<open>item-N\<close> for a natural number \<open>N\<close> below 10000.
\<close>

theorem namer_precedence:
  assumes "text_record item" and "unit_double r"
  shows "itemName r item = Inr (name_by_value r item)
       \<and> (\<exists>N<10000. random_name r = ''item-'' @ show_nat N)"
proof -
  have mem: "\<And>k f. (k, f) \<in> set precedence \<Longrightarrow> has_first item k = has_text item k"
    using has_first_text[OF assms(1)] .
  have fc: "\<And>k f. (k, f) \<in> set precedence \<Longrightarrow>
      (\<not> present item k \<and> member_of item k = JUndefined)
       \<or> (present item k \<and> truthy (member_of item k) \<and> (\<exists>s. first_of item k = JString s))"
    using field_cases[OF assms(1)] .
  have nn: "item \<noteq> JNull" using assms(1) by (auto simp: text_record_def)
  have a: "has_first item ''application'' = has_text item ''application''"
    and l: "has_first item ''layout'' = has_text item ''layout''"
    and ob: "has_first item ''object'' = has_text item ''object''"
    and fi: "has_first item ''field'' = has_text item ''field''"
    and ac: "has_first item ''apexClass'' = has_text item ''apexClass''"
    and ap: "has_first item ''apexPage'' = has_text item ''apexPage''"
    by (rule mem, simp add: precedence_def)+
  have n: "truthy (member_of item ''name'') = present item ''name''"
    using fc[of "''name''" id] by (auto simp: precedence_def)
  have ls: "\<exists>s. has_text item ''layout'' \<longrightarrow> first_of item ''layout'' = JString s"
    using fc[of "''layout''" "replace_all CHR ''/'' CHR ''-''"]
    by (auto simp: precedence_def has_text_def)
  have fs: "\<exists>s. has_text item ''field'' \<longrightarrow> first_of item ''field'' = JString s"
    using fc[of "''field''" "replace_all CHR ''.'' CHR ''-''"]
    by (auto simp: precedence_def has_text_def)
  have "itemName r item = Inr (name_by_value r item)"
    using ls fs
    by (auto simp: itemName_def derive_name_def name_by_value_def nn n a l ob fi ac ap
        precedence_def replace_in_def)
  with random_name_range[OF assms(2)] show ?thesis by blast
qed

text \<open>
  The theorem at two records: one named by its \<^verbatim>\<open>field\<close> although a
  \<^verbatim>\<open>apexClass\<close> stands before it in the record, and one with no identifying
  field, for the draw \<open>1/2\<close>.
\<close>

theorem namer_precedence_witness:
  "text_record (JObject [(''apexClass'', JArray [JString ''Util'']),
                         (''field'', JArray [JString ''Account.Custom__c''])])
   \<and> text_record (JObject [(''enabled'', JArray [JString ''true''])])
   \<and> unit_double (Double 1 1)
   \<and> itemName (Double 1 1) (JObject [(''apexClass'', JArray [JString ''Util'']),
                         (''field'', JArray [JString ''Account.Custom__c''])])
       = Inr ''Account-Custom__c''
   \<and> itemName (Double 1 1) (JObject [(''enabled'', JArray [JString ''true''])])
       = Inr ''item-5000''"
proof -
  let ?a = "JObject [(''apexClass'', JArray [JString ''Util'']),
                     (''field'', JArray [JString ''Account.Custom__c''])]"
  let ?b = "JObject [(''enabled'', JArray [JString ''true''])]"
  have ta: "text_record ?a" and tb: "text_record ?b"
    by (simp_all add: text_record_def precedence_def text_field_def)
  have r: "unit_double (Double 1 1)" by simp
  have va: "name_by_value (Double 1 1) ?a = ''Account-Custom__c''"
    by (simp add: name_by_value_def present_def has_text_def precedence_def first_of_def
        index_of_key_0 replace_all_def)
  have vb: "name_by_value (Double 1 1) ?b = ''item-5000''"
    by (simp add: name_by_value_def present_def has_text_def precedence_def first_of_def
        double_eval show_nat_eval)
  from namer_precedence[OF ta r] namer_precedence[OF tb r] ta tb r va vb
  show ?thesis by simp
qed

text \<open>
  C6 as the specification words it fails where a field is present with an empty
  value: \<^verbatim>\<open>application\<close> is the first field present in this record, yet the
  artifact is named after \<^verbatim>\<open>layout\<close>.
\<close>

theorem namer_first_present_counterexample:
  "itemName (Double 0 1) (JObject [(''application'', JArray [JString []]),
                        (''layout'', JArray [JString ''Account/Layout''])])
     = Inr ''Account-Layout''
   \<and> name_by_presence (Double 0 1) (JObject [(''application'', JArray [JString []]),
                        (''layout'', JArray [JString ''Account/Layout''])]) = []"
  by (simp add: itemName_def derive_name_def has_first_def first_of_def replace_in_def
      replace_all_def index_of_key_0 name_by_presence_def present_def precedence_def)

section \<open>Facts about the file system\<close>

lemma file_at_File: "file_at (File c) q = (if q = [] then Some c else None)"
  by (cases q) (simp_all add: file_at_def)

lemma file_at_Dir_Nil: "file_at (Dir es) [] = None"
  by (simp add: file_at_def)

lemma file_at_Dir_Cons:
  "file_at (Dir es) (x # xs) = (case map_of es x of None \<Rightarrow> None | Some ch \<Rightarrow> file_at ch xs)"
  by (simp add: file_at_def split: option.splits)

lemma dir_at_File: "dir_at (File c) q = False"
  by (cases q) (simp_all add: dir_at_def)

lemma dir_at_Dir_Nil: "dir_at (Dir es) [] = True"
  by (simp add: dir_at_def)

lemma dir_at_Dir_Cons:
  "dir_at (Dir es) (x # xs) = (case map_of es x of None \<Rightarrow> False | Some ch \<Rightarrow> dir_at ch xs)"
  by (simp add: dir_at_def split: option.splits)

lemma file_at_empty: "file_at (Dir []) q = None"
  by (cases q) (simp_all add: file_at_def)

lemma dir_at_empty: "dir_at (Dir []) q = (q = [])"
  by (cases q) (simp_all add: dir_at_def)

lemmas at_simps = file_at_empty dir_at_empty file_at_File file_at_Dir_Nil file_at_Dir_Cons
  dir_at_File dir_at_Dir_Nil dir_at_Dir_Cons

lemma lookup_append:
  "lookup fsys (p @ q) = (case lookup fsys p of None \<Rightarrow> None | Some n \<Rightarrow> lookup n q)"
proof (induction p arbitrary: fsys)
  case Nil
  then show ?case by simp
next
  case (Cons x xs)
  then show ?case by (cases fsys) (auto split: option.splits)
qed

lemma writeFileSync_file_at:
  "writeFileSync fsys p c = Inr fsys' \<Longrightarrow>
     file_at fsys' q = (if q = p then Some c else file_at fsys q)"
proof (induction fsys p c arbitrary: fsys' q rule: writeFileSync.induct)
  case (1 old c)
  then show ?case by (cases q) (auto simp: at_simps)
next
  case (2 old x xs c)
  then show ?case by simp
next
  case (3 es c)
  then show ?case by simp
next
  case (4 es x xs c)
  show ?case
  proof (cases "map_of es x")
    case None
    with 4 show ?thesis
      by (cases q) (auto simp: at_simps update_conv' split: if_splits option.splits)
  next
    case (Some ch)
    with 4 obtain ch' where w: "writeFileSync ch xs c = Inr ch'"
      and f: "fsys' = Dir (AList.update x ch' es)"
      by (auto split: sum.splits)
    from "4.IH"[OF Some w]
    have ih: "\<And>q. file_at ch' q = (if q = xs then Some c else file_at ch q)" .
    show ?thesis
      by (cases q) (auto simp: f at_simps update_conv' Some ih split: option.splits)
  qed
qed

lemma writeFileSync_dir_at:
  "writeFileSync fsys p c = Inr fsys' \<Longrightarrow> dir_at fsys' q = dir_at fsys q"
proof (induction fsys p c arbitrary: fsys' q rule: writeFileSync.induct)
  case (1 old c)
  then show ?case by (cases q) (auto simp: at_simps)
next
  case (2 old x xs c)
  then show ?case by simp
next
  case (3 es c)
  then show ?case by simp
next
  case (4 es x xs c)
  show ?case
  proof (cases "map_of es x")
    case None
    with 4 show ?thesis
      by (cases q) (auto simp: at_simps update_conv' split: if_splits option.splits)
  next
    case (Some ch)
    with 4 obtain ch' where w: "writeFileSync ch xs c = Inr ch'"
      and f: "fsys' = Dir (AList.update x ch' es)"
      by (auto split: sum.splits)
    from "4.IH"[OF Some w] have ih: "\<And>q. dir_at ch' q = dir_at ch q" .
    show ?thesis
      by (cases q) (auto simp: f at_simps update_conv' Some ih split: option.splits)
  qed
qed

lemma mkdirSync_file_at:
  "mkdirSync fsys p = Inr fsys' \<Longrightarrow> file_at fsys' q = file_at fsys q"
proof (induction fsys p arbitrary: fsys' q rule: mkdirSync.induct)
  case (4 es x xs)
  let ?ch = "case map_of es x of None \<Rightarrow> Dir [] | Some ch \<Rightarrow> ch"
  from 4 obtain ch' where w: "mkdirSync ?ch xs = Inr ch'"
    and f: "fsys' = Dir (AList.update x ch' es)"
    by (auto split: sum.splits)
  from "4.IH"[OF w] have ih: "\<And>q. file_at ch' q = file_at ?ch q" .
  show ?case
    by (cases q) (auto simp: f at_simps update_conv' ih split: option.splits)
qed auto

lemma mkdirSync_dir_at:
  "mkdirSync fsys p = Inr fsys' \<Longrightarrow> dir_at fsys' q = (dir_at fsys q \<or> (\<exists>r. p = q @ r))"
proof (induction fsys p arbitrary: fsys' q rule: mkdirSync.induct)
  case (3 es)
  then show ?case by (cases q) (auto simp: at_simps)
next
  case (4 es x xs)
  let ?ch = "case map_of es x of None \<Rightarrow> Dir [] | Some ch \<Rightarrow> ch"
  from 4 obtain ch' where w: "mkdirSync ?ch xs = Inr ch'"
    and f: "fsys' = Dir (AList.update x ch' es)"
    by (auto split: sum.splits)
  from "4.IH"[OF w] have ih: "\<And>q. dir_at ch' q = (dir_at ?ch q \<or> (\<exists>r. xs = q @ r))" .
  show ?case
    by (cases q) (auto simp: f at_simps update_conv' ih split: option.splits)
qed auto

text \<open>Creating a directory under an existing one, where nothing stands yet.\<close>

lemma mkdirSync_fresh:
  "dir_at fsys d \<Longrightarrow> lookup fsys (d @ [n]) = None \<Longrightarrow>
     \<exists>fsys'. mkdirSync fsys (d @ [n]) = Inr fsys' \<and> lookup fsys' (d @ [n]) = Some (Dir [])"
proof (induction d arbitrary: fsys)
  case Nil
  then obtain es where "fsys = Dir es" by (cases fsys) (auto simp: at_simps)
  with Nil show ?case by (auto simp: update_conv' split: option.splits)
next
  case (Cons x xs)
  then obtain es where fs: "fsys = Dir es" by (cases fsys) (auto simp: at_simps)
  with Cons.prems obtain ch where ch: "map_of es x = Some ch" and d: "dir_at ch xs"
    and l: "lookup ch (xs @ [n]) = None"
    by (auto simp: at_simps split: option.splits)
  from Cons.IH[OF d l] obtain ch' where "mkdirSync ch (xs @ [n]) = Inr ch'"
    and "lookup ch' (xs @ [n]) = Some (Dir [])" by blast
  then show ?case by (simp add: fs ch update_conv')
qed

section \<open>Facts about loops and steps\<close>

lemma for_each_final:
  assumes "P st" and "\<And>x s. x \<in> set xs \<Longrightarrow> P s \<Longrightarrow> P (final (body x s))"
  shows "P (final (for_each body xs st))"
  using assms
proof (induction xs arbitrary: st)
  case Nil
  then show ?case by simp
next
  case (Cons x xs)
  have step: "P (final (body x st))" using Cons.prems by simp
  show ?case
  proof (cases "body x st")
    case (Returned s)
    with step have "P s" by simp
    then have "P (final (for_each body xs s))"
      using Cons.prems(2) by (intro Cons.IH) simp_all
    with Returned show ?thesis by simp
  next
    case (Thrown e s)
    with step show ?thesis by simp
  qed
qed

lemma for_each_append:
  "for_each body (xs @ ys) st =
     (case for_each body xs st of Thrown e s \<Rightarrow> Thrown e s | Returned s \<Rightarrow> for_each body ys s)"
  by (induction xs arbitrary: st) (auto split: outcome.splits)

lemma ensure_dir_file_at: "file_at (files (final (ensure_dir p st))) q = file_at (files st) q"
  by (auto simp: ensure_dir_def mkdirSync_file_at split: sum.splits)

lemma ensure_dir_dir_at:
  "dir_at (files (final (ensure_dir p st))) q \<Longrightarrow> dir_at (files st) q \<or> (\<exists>r. p = q @ r)"
  by (auto simp: ensure_dir_def mkdirSync_dir_at split: sum.splits if_splits)

lemma ensure_dir_dir_at_mono:
  "dir_at (files st) q \<Longrightarrow> dir_at (files (final (ensure_dir p st))) q"
  by (auto simp: ensure_dir_def mkdirSync_dir_at split: sum.splits)

lemma split_item_dir_at:
  "dir_at (files (final (split_item categoryDir key profile item st))) q = dir_at (files st) q"
  by (auto simp: split_item_def Let_def writeFileSync_dir_at split: sum.splits)

lemma split_items_dir_at:
  "dir_at (files (final (for_each (split_item categoryDir key profile) items st))) q
     = dir_at (files st) q"
  by (rule for_each_final) (simp_all add: split_item_dir_at)

lemma for_each_skip:
  "(\<And>x s. x \<in> set xs \<Longrightarrow> body x s = Returned s) \<Longrightarrow> for_each body xs st = Returned st"
  by (induction xs arbitrary: st) simp_all

lemma split_category_dir_at:
  assumes "fst entry \<noteq> key \<or> snd entry = JArray []" "simple_name (fst entry)"
  shows "dir_at (files (final (split_category profileDir profile entry st))) (profileDir @ [key])
           = dir_at (files st) (profileDir @ [key])"
proof (cases "snd entry")
  case (JArray items)
  show ?thesis
  proof (cases "items = []")
    case True
    with JArray show ?thesis by (simp add: split_category_def)
  next
    case False
    with JArray assms have ne: "fst entry \<noteq> key" by simp
    let ?cd = "profileDir @ [fst entry]"
    let ?q = "profileDir @ [key]"
    have e: "dir_at (files (final (ensure_dir ?cd st))) ?q = dir_at (files st) ?q"
      using ensure_dir_dir_at[of ?cd st ?q] ensure_dir_dir_at_mono[of st ?q ?cd] ne by auto
    show ?thesis
      using e JArray False
      by (cases "ensure_dir ?cd st")
         (simp_all add: split_category_def path_join_simple[OF assms(2)] split_items_dir_at)
  qed
qed (simp_all add: split_category_def)

lemma split_category_dir_at_mono:
  "dir_at (files st) q \<Longrightarrow> dir_at (files (final (split_category profileDir profile entry st))) q"
proof (cases "snd entry")
  case (JArray items)
  assume d: "dir_at (files st) q"
  show ?thesis
  proof (cases "ensure_dir (path_join profileDir (fst entry)) st")
    case (Returned s)
    with ensure_dir_dir_at_mono[OF d, of "path_join profileDir (fst entry)"]
    show ?thesis using JArray d
      by (simp add: split_category_def Let_def split_items_dir_at)
  next
    case (Thrown e s)
    with ensure_dir_dir_at_mono[OF d, of "path_join profileDir (fst entry)"]
    show ?thesis using JArray d
      by (simp add: split_category_def Let_def)
  qed
qed (simp_all add: split_category_def)

lemma final_splitProfile:
  "readFileSync (files st) profileFile = Inr profileContent \<Longrightarrow>
   final (splitProfile profileFile outputDir st)
     = final (split_try outputDir (basename_ext profileFile ''.profile-meta.xml'') profileContent st)"
  by (simp add: splitProfile_def Let_def this_error_def split: outcome.splits)

lemmas codec_eval = parseStringPromise_def close_tag_def attributes_object_def assignOrPush_def
  blank_def white_space_def buildObject_def artifact_def

lemmas run_eval = split_try_def get_def ensure_dir_def existsSync_def
  entries_def split_category_def split_item_def itemName_def derive_name_def has_first_def
  first_of_def replace_in_def replace_all_def index_of_key_0 codec_eval
  path_join_def Let_def splitProfile_def readFileSync_def basename_ext_def basename_def
  ends_with_def this_error_def

lemmas example_defs = example_state_def example_tree_def example_document_def
  example_record_def example_bare_def example_artifact_def example_item_def


section \<open>The Splitter: the profile directory\<close>

text \<open>
  C10. When the profile file can be read and parses to a document, and the output
  directory exists with no file standing at \<^verbatim>\<open>outputRoot/profileName\<close>, the
  directory \<^verbatim>\<open>outputRoot/profileName\<close> is created (empty, when nothing was there)
  before the entries of the profile are examined: the loop over the categories starts from
  the state that has it, and it is still there when \<^verbatim>\<open>splitProfile\<close> ends. A
  profile with no non-empty category returns in exactly that state: the directory and
  nothing else.
\<close>

theorem profile_directory_created:
  assumes rd: "readFileSync (files st) profileFile = Inr profileContent"
    and parse: "parseStringPromise profileContent = Inr (JObject doc)"
    and name: "profileName = basename_ext profileFile ''.profile-meta.xml''"
    and simple: "simple_name profileName"
    and out: "dir_at (files st) outputDir"
    and free: "file_at (files st) (outputDir @ [profileName]) = None"
  shows "\<exists>st1. ensure_dir (outputDir @ [profileName]) st = Returned st1
           \<and> dir_at (files st1) (outputDir @ [profileName])
           \<and> (lookup (files st) (outputDir @ [profileName]) = None
                \<longrightarrow> lookup (files st1) (outputDir @ [profileName]) = Some (Dir []))
           \<and> split_try outputDir profileName profileContent st
               = (case entries (member_of (JObject doc) ''Profile'') of
                    Inl e \<Rightarrow> Thrown e st1
                  | Inr es \<Rightarrow>
                      for_each (split_category (outputDir @ [profileName])
                                  (member_of (JObject doc) ''Profile'')) es st1)
           \<and> dir_at (files (final (splitProfile profileFile outputDir st)))
                 (outputDir @ [profileName])
           \<and> (\<forall>es. entries (member_of (JObject doc) ''Profile'') = Inr es \<and> no_records es
                \<longrightarrow> splitProfile profileFile outputDir st = Returned st1)"
proof -
  let ?pd = "outputDir @ [profileName]"
  let ?profile = "member_of (JObject doc) ''Profile''"
  have pj: "path_join outputDir profileName = ?pd" by (rule path_join_simple[OF simple])
  have g: "get (JObject doc) ''Profile'' = Inr ?profile" by (simp add: get_def)
  obtain st1 where e: "ensure_dir ?pd st = Returned st1"
    and d1: "dir_at (files st1) ?pd"
    and l1: "lookup (files st) ?pd = None \<longrightarrow> lookup (files st1) ?pd = Some (Dir [])"
  proof (cases "lookup (files st) ?pd")
    case None
    from mkdirSync_fresh[OF out None] obtain fsys' where
      m: "mkdirSync (files st) ?pd = Inr fsys'" and l: "lookup fsys' ?pd = Some (Dir [])" by blast
    show ?thesis
      by (rule that[of "st\<lparr>files := fsys'\<rparr>"])
         (simp_all add: ensure_dir_def existsSync_def None m l dir_at_def)
  next
    case (Some n)
    with free have "dir_at (files st) ?pd"
      by (cases n) (simp_all add: file_at_def dir_at_def)
    with Some show ?thesis
      by (intro that[of st]) (simp_all add: ensure_dir_def existsSync_def)
  qed
  have body: "split_try outputDir profileName profileContent st
      = (case entries ?profile of
           Inl e \<Rightarrow> Thrown e st1
         | Inr es \<Rightarrow> for_each (split_category ?pd ?profile) es st1)"
    by (simp add: split_try_def parse g pj e Let_def del: member_of.simps)
  have after: "dir_at (files (final (split_try outputDir profileName profileContent st))) ?pd"
  proof (cases "entries ?profile")
    case (Inl e)
    with body d1 show ?thesis by simp
  next
    case (Inr es)
    have "dir_at (files (final (for_each (split_category ?pd ?profile) es st1))) ?pd"
      by (rule for_each_final) (simp_all add: d1 split_category_dir_at_mono)
    with body Inr show ?thesis by simp
  qed
  have none: "\<forall>es. entries ?profile = Inr es \<and> no_records es
       \<longrightarrow> splitProfile profileFile outputDir st = Returned st1"
  proof (intro allI impI)
    fix es assume a: "entries ?profile = Inr es \<and> no_records es"
    have "for_each (split_category ?pd ?profile) es st1 = Returned st1"
    proof (rule for_each_skip)
      fix x s assume "x \<in> set es"
      with a have "case snd x of JArray items \<Rightarrow> items = [] | _ \<Rightarrow> True"
        by (simp add: no_records_def list_all_iff)
      then show "split_category ?pd ?profile x s = Returned s"
        by (simp add: split_category_def split: jsval.splits)
    qed
    with body a show "splitProfile profileFile outputDir st = Returned st1"
      by (simp add: splitProfile_def rd name[symmetric] Let_def)
  qed
  from e d1 l1 body after none final_splitProfile[OF rd, of outputDir] name
  show ?thesis by auto
qed

text \<open>
  The theorem at the profile \<^verbatim>\<open>Bare\<close> of the example, whose root element has a
  namespace declaration and no child: the split returns, and the output holds the empty directory
  \<^verbatim>\<open>out/Bare\<close>.
\<close>

theorem profile_directory_created_witness:
  "readFileSync (files example_state) [''in'', ''Bare.profile-meta.xml''] = Inr example_bare
   \<and> parseStringPromise example_bare
       = Inr (JObject [(''Profile'', JObject [(''$'', JObject [(''xmlns'', JString ''urn:example'')])])])
   \<and> basename_ext [''in'', ''Bare.profile-meta.xml''] ''.profile-meta.xml'' = ''Bare''
   \<and> simple_name ''Bare''
   \<and> dir_at (files example_state) [''out'']
   \<and> file_at (files example_state) [''out'', ''Bare''] = None
   \<and> dir_at (files (final (splitProfile [''in'', ''Bare.profile-meta.xml''] [''out'']
                              example_state))) [''out'', ''Bare'']
   \<and> lookup (files (final (splitProfile [''in'', ''Bare.profile-meta.xml''] [''out'']
                              example_state))) [''out'', ''Bare''] = Some (Dir [])"
proof -
  let ?f = "[''in'', ''Bare.profile-meta.xml'']"
  let ?p = "JObject [(''$'', JObject [(''xmlns'', JString ''urn:example'')])]"
  have rd: "readFileSync (files example_state) ?f = Inr example_bare"
    by (simp add: readFileSync_def example_defs)
  have parse: "parseStringPromise example_bare = Inr (JObject [(''Profile'', ?p)])"
    by (simp add: codec_eval example_bare_def)
  have name: "''Bare'' = basename_ext ?f ''.profile-meta.xml''"
    by (simp add: basename_ext_def basename_def ends_with_def)
  have simple: "simple_name ''Bare''" by (simp add: simple_name_def)
  have out: "dir_at (files example_state) [''out'']" by (simp add: example_defs at_simps)
  have free: "file_at (files example_state) ([''out''] @ [''Bare'']) = None"
    by (simp add: example_defs at_simps)
  have absent: "lookup (files example_state) ([''out''] @ [''Bare'']) = None"
    by (simp add: example_defs)
  have es: "entries (member_of (JObject [(''Profile'', ?p)]) ''Profile'')
              = Inr [(''$'', JObject [(''xmlns'', JString ''urn:example'')])]"
    by (simp add: entries_def)
  have nr: "no_records [(''$'', JObject [(''xmlns'', JString ''urn:example'')])]"
    by (simp add: no_records_def)
  from profile_directory_created[OF rd parse name simple out free]
  obtain st1 where a: "lookup (files st1) ([''out''] @ [''Bare'']) = Some (Dir [])"
    and b: "dir_at (files (final (splitProfile ?f [''out''] example_state))) ([''out''] @ [''Bare''])"
    and c: "splitProfile ?f [''out''] example_state = Returned st1"
    using absent es nr by blast
  from a b c rd parse name[symmetric] simple out free show ?thesis by simp
qed


lemmas merge_eval = mergeProfile_def merged_profile_def subdirectories_def readdirSync_def
  isDirectory_def merge_category_def item_files_def ends_with_def merge_item_def
  merge_item_try_def readFileSync_def parseStringPromise_def get_def push_items_def
  object_prototype_names_def codec_eval canonical_xmlns_def path_join_def basename_def Let_def
  this_error_def

lemma example_merge_run:
  "mergeProfile [''split'', ''Admin''] [''merged''] example_split_state
   = Returned \<lparr>files =
        Dir [(''split'',
              Dir [(''Admin'',
                    Dir [(''fieldPermissions'',
                          Dir [(''Account-Name.xml'', File example_artifact),
                               (''stray.xml'', File stray_artifact)])])]),
             (''merged'', Dir [(''Admin.profile-meta.xml'', File example_merged)])],
      randoms = (\<lambda>n. Double 1 1)\<rparr>"
  by (simp add: merge_eval example_split_state_def example_defs stray_artifact_def
      example_merged_def)


section \<open>Facts about batches of units\<close>

lemma for_each_stops:
  "for_each body xs st = Returned st1 \<Longrightarrow> body x st1 = Thrown e s \<Longrightarrow>
     for_each body (xs @ x # ys) st = Thrown e s"
  by (simp add: for_each_append)

lemma splitProfile_malformed:
  "readFileSync (files st) profileFile = Inr (Malformed msg) \<Longrightarrow>
     splitProfile profileFile outputDir st
       = Thrown (CLIError (''Error processing profile ''
                   @ basename_ext profileFile ''.profile-meta.xml'' @ '': '' @ msg)) st"
  by (simp add: splitProfile_def split_try_def parseStringPromise_def this_error_def)

lemma merge_item_malformed:
  "readFileSync fsys itemFile = Inr (Malformed msg) \<Longrightarrow>
     merge_item fsys categoryName itemFile profile
       = Thrown (CLIError (''Error processing item file '' @ render_path itemFile @ '': '' @ msg))
           profile"
  by (simp add: merge_item_def merge_item_try_def parseStringPromise_def this_error_def)

lemmas split_run_eval = Split_run_def existsSync_def ensure_dir_def readdirSync_def
  profile_files_def unlink_original_def

lemma split_item_file_mono:
  "file_at (files st) p \<noteq> None \<Longrightarrow>
     file_at (files (final (split_item categoryDir key profile item st))) p \<noteq> None"
  by (auto simp: split_item_def Let_def writeFileSync_file_at split: sum.splits)

lemma split_category_file_mono:
  assumes "file_at (files st) p \<noteq> None"
  shows "file_at (files (final (split_category profileDir profile entry st))) p \<noteq> None"
proof (cases "snd entry")
  case (JArray items)
  let ?cd = "path_join profileDir (fst entry)"
  have e: "file_at (files (final (ensure_dir ?cd st))) p \<noteq> None"
    using assms by (simp add: ensure_dir_file_at)
  show ?thesis
  proof (cases "ensure_dir ?cd st")
    case (Returned s)
    with e have "file_at (files s) p \<noteq> None" by simp
    then have "file_at (files (final (for_each (split_item ?cd (fst entry) profile) items s))) p
                 \<noteq> None"
      by (rule for_each_final) (rule split_item_file_mono)
    with Returned JArray assms show ?thesis by (simp add: split_category_def Let_def)
  next
    case (Thrown err s)
    with e JArray assms show ?thesis by (simp add: split_category_def Let_def)
  qed
qed (simp_all add: split_category_def assms)

lemma split_try_file_mono:
  assumes "file_at (files st) p \<noteq> None"
  shows "file_at (files (final (split_try outputDir profileName profileContent st))) p \<noteq> None"
proof (cases "parseStringPromise profileContent")
  case (Inl e)
  with assms show ?thesis by (simp add: split_try_def)
next
  case (Inr result)
  show ?thesis
  proof (cases "get result ''Profile''")
    case (Inl e)
    with Inr assms show ?thesis by (simp add: split_try_def)
  next
    case g: (Inr profile)
    let ?pd = "path_join outputDir profileName"
    have e: "file_at (files (final (ensure_dir ?pd st))) p \<noteq> None"
      using assms by (simp add: ensure_dir_file_at)
    show ?thesis
    proof (cases "ensure_dir ?pd st")
      case (Thrown err s)
      with e Inr g show ?thesis by (simp add: split_try_def Let_def)
    next
      case (Returned s)
      with e have w: "file_at (files s) p \<noteq> None" by simp
      show ?thesis
      proof (cases "entries profile")
        case (Inl err)
        with w Returned Inr g show ?thesis by (simp add: split_try_def Let_def)
      next
        case es: (Inr es)
        from w have "file_at (files (final (for_each (split_category ?pd profile) es s))) p
                       \<noteq> None"
          by (rule for_each_final) (rule split_category_file_mono)
        with Returned Inr g es show ?thesis by (simp add: split_try_def Let_def)
      qed
    qed
  qed
qed

lemma splitProfile_file_mono:
  assumes "file_at (files st) p \<noteq> None"
  shows "file_at (files (final (splitProfile profileFile outputDir st))) p \<noteq> None"
proof (cases "readFileSync (files st) profileFile")
  case (Inl e)
  with assms show ?thesis by (simp add: splitProfile_def)
next
  case (Inr c)
  from final_splitProfile[OF Inr] split_try_file_mono[OF assms] show ?thesis by simp
qed

lemma split_batch_file_mono:
  assumes "file_at (files st) p \<noteq> None"
  shows "file_at (files (final (for_each (\<lambda>f. splitProfile f outputDir) fs st))) p \<noteq> None"
  using assms by (rule for_each_final) (rule splitProfile_file_mono)

lemma unlinkSync_gone: "unlinkSync fsys q = Inr fsys' \<Longrightarrow> lookup fsys' q = None"
proof (induction fsys q arbitrary: fsys' rule: unlinkSync.induct)
  case (3 es x)
  then show ?case by (auto simp: delete_conv' split: option.splits node.splits)
next
  case (4 es x y ys)
  then show ?case by (auto simp: update_conv' split: option.splits sum.splits)
qed simp_all

lemma unlinkSync_absent:
  "unlinkSync fsys q = Inr fsys' \<Longrightarrow> lookup fsys p = None \<Longrightarrow> lookup fsys' p = None"
proof (induction fsys q arbitrary: fsys' p rule: unlinkSync.induct)
  case (3 es x)
  then show ?case
    by (cases p) (auto simp: delete_conv' split: option.splits node.splits if_splits)
next
  case (4 es x y ys)
  then obtain ch ch' where ch: "map_of es x = Some ch"
    and u: "unlinkSync ch (y # ys) = Inr ch'" and f: "fsys' = Dir (AList.update x ch' es)"
    by (auto split: option.splits sum.splits)
  from "4.IH"[OF ch u] have ih: "\<And>p. lookup ch p = None \<Longrightarrow> lookup ch' p = None" .
  from "4.prems"(2) show ?case
    by (cases p) (auto simp: f ch update_conv' ih split: option.splits if_splits)
qed simp_all

lemma unlink_original_absent:
  "lookup (files st) p = None \<Longrightarrow> lookup (files (final (unlink_original q st))) p = None"
  by (auto simp: unlink_original_def unlinkSync_absent split: sum.splits)

lemma unlink_all_gone:
  "for_each unlink_original fs st = Returned s \<Longrightarrow> f \<in> set fs \<Longrightarrow> lookup (files s) f = None"
proof (induction fs arbitrary: st)
  case Nil
  then show ?case by simp
next
  case (Cons q qs)
  from Cons.prems(1) obtain s1 where u: "unlink_original q st = Returned s1"
    and r: "for_each unlink_original qs s1 = Returned s"
    by (auto split: outcome.splits)
  show ?case
  proof (cases "f \<in> set qs")
    case True
    with Cons.IH[OF r] show ?thesis by simp
  next
    case False
    with Cons.prems(2) have fq: "f = q" by simp
    from u have "lookup (files s1) q = None"
      by (auto simp: unlink_original_def unlinkSync_gone split: sum.splits)
    then have "lookup (files (final (for_each unlink_original qs s1))) q = None"
      by (rule for_each_final) (rule unlink_original_absent)
    with r fq show ?thesis by simp
  qed
qed

lemma rmdirSync_gone: "rmdirSync fsys q = Inr fsys' \<Longrightarrow> lookup fsys' q = None"
proof (induction fsys q arbitrary: fsys' rule: rmdirSync.induct)
  case (3 es x)
  then show ?case by (auto simp: delete_conv' split: option.splits node.splits if_splits)
next
  case (4 es x y ys)
  then show ?case by (auto simp: update_conv' split: option.splits sum.splits)
qed simp_all

lemma rmdirSync_absent:
  "rmdirSync fsys q = Inr fsys' \<Longrightarrow> lookup fsys p = None \<Longrightarrow> lookup fsys' p = None"
proof (induction fsys q arbitrary: fsys' p rule: rmdirSync.induct)
  case (3 es x)
  then show ?case
    by (cases p) (auto simp: delete_conv' split: option.splits node.splits if_splits)
next
  case (4 es x y ys)
  then obtain ch ch' where ch: "map_of es x = Some ch"
    and u: "rmdirSync ch (y # ys) = Inr ch'" and f: "fsys' = Dir (AList.update x ch' es)"
    by (auto split: option.splits sum.splits)
  from "4.IH"[OF ch u] have ih: "\<And>p. lookup ch p = None \<Longrightarrow> lookup ch' p = None" .
  from "4.prems"(2) show ?case
    by (cases p) (auto simp: f ch update_conv' ih split: option.splits if_splits)
qed simp_all

lemma deleteDirectory_in_absent:
  "lookup fsys p = None \<Longrightarrow> lookup (final (deleteDirectory_in n directory fsys)) p = None"
  and deleteDirectory_entries_absent:
  "lookup fsys p = None \<Longrightarrow> lookup (final (deleteDirectory_entries es directory fsys)) p = None"
proof (induction n directory fsys and es directory fsys
    rule: deleteDirectory_in_deleteDirectory_entries.induct)
  case (1 c directory fsys)
  then show ?case by simp
next
  case (2 es directory fsys)
  then show ?case
    by (auto simp: rmdirSync_absent split: outcome.splits sum.splits)
next
  case (3 directory fsys)
  then show ?case by simp
next
  case (4 entry rest directory fsys)
  show ?case
  proof (cases "snd entry")
    case (File c)
    show ?thesis
    proof (cases "unlinkSync fsys (path_join directory (fst entry))")
      case (Inl e)
      with File "4.prems" show ?thesis by simp
    next
      case (Inr s)
      with "4.prems" have n: "lookup s p = None" by (simp add: unlinkSync_absent)
      have "lookup (final (deleteDirectory_entries rest directory s)) p = None"
        by (rule "4.IH"(2)[OF _ n]) (simp add: File Inr)
      with File Inr show ?thesis by simp
    qed
  next
    case (Dir sub)
    let ?r = "deleteDirectory_in (snd entry) (path_join directory (fst entry)) fsys"
    from "4.IH"(1)[OF Dir "4.prems"] have a: "lookup (final ?r) p = None" .
    show ?thesis
    proof (cases ?r)
      case (Returned s)
      with a have n: "lookup s p = None" by simp
      have "lookup (final (deleteDirectory_entries rest directory s)) p = None"
        by (rule "4.IH"(2)[OF _ n]) (use Returned in \<open>simp add: Dir\<close>)
      with Dir Returned show ?thesis by simp
    next
      case (Thrown e s)
      with a Dir show ?thesis by simp
    qed
  qed
qed

lemma deleteDirectory_absent:
  "lookup (files st) p = None \<Longrightarrow> lookup (files (final (deleteDirectory q st))) p = None"
proof -
  assume a: "lookup (files st) p = None"
  show ?thesis
  proof (cases "lookup (files st) q")
    case None
    with a show ?thesis by (simp add: deleteDirectory_def)
  next
    case (Some n)
    from deleteDirectory_in_absent[OF a, of n q] Some show ?thesis
      by (cases "deleteDirectory_in n q (files st)") (simp_all add: deleteDirectory_def)
  qed
qed

lemma deleteDirectory_gone:
  "deleteDirectory q st = Returned s \<Longrightarrow> lookup (files s) q = None"
proof -
  assume r: "deleteDirectory q st = Returned s"
  show ?thesis
  proof (cases "lookup (files st) q")
    case None
    with r show ?thesis by (auto simp: deleteDirectory_def)
  next
    case (Some n)
    with r obtain s' where d: "deleteDirectory_in n q (files st) = Returned s'"
      and s: "s = st\<lparr>files := s'\<rparr>"
      by (auto simp: deleteDirectory_def split: outcome.splits)
    from d have "lookup s' q = None"
      by (cases n) (auto simp: rmdirSync_gone split: outcome.splits sum.splits)
    with s show ?thesis by simp
  qed
qed

lemma delete_all_gone:
  "for_each deleteDirectory ds st = Returned s \<Longrightarrow> d \<in> set ds \<Longrightarrow> lookup (files s) d = None"
proof (induction ds arbitrary: st)
  case Nil
  then show ?case by simp
next
  case (Cons q qs)
  from Cons.prems(1) obtain s1 where u: "deleteDirectory q st = Returned s1"
    and r: "for_each deleteDirectory qs s1 = Returned s"
    by (auto split: outcome.splits)
  show ?case
  proof (cases "d \<in> set qs")
    case True
    with Cons.IH[OF r] show ?thesis by simp
  next
    case False
    with Cons.prems(2) have dq: "d = q" by simp
    from deleteDirectory_gone[OF u]
    have "lookup (files (final (for_each deleteDirectory qs s1))) q = None"
      by (rule for_each_final) (rule deleteDirectory_absent)
    with r dq show ?thesis by simp
  qed
qed

lemma writeFileSync_lookup_mono:
  "writeFileSync fsys q c = Inr fsys' \<Longrightarrow> lookup fsys p \<noteq> None \<Longrightarrow> lookup fsys' p \<noteq> None"
proof -
  assume w: "writeFileSync fsys q c = Inr fsys'" and a: "lookup fsys p \<noteq> None"
  have k: "\<And>t. (lookup t p \<noteq> None) = (file_at t p \<noteq> None \<or> dir_at t p)"
    by (auto simp: file_at_def dir_at_def split: option.splits node.splits)
  from a have "file_at fsys p \<noteq> None \<or> dir_at fsys p" by (simp only: k)
  then have "file_at fsys' p \<noteq> None \<or> dir_at fsys' p"
    by (auto simp: writeFileSync_file_at[OF w] writeFileSync_dir_at[OF w])
  then show ?thesis by (simp only: k)
qed

lemma mergeProfile_lookup_mono:
  "lookup (files st) p \<noteq> None \<Longrightarrow>
     lookup (files (final (mergeProfile profileDir outputDir st))) p \<noteq> None"
  by (auto simp: mergeProfile_def Let_def split: sum.splits dest: writeFileSync_lookup_mono)

lemma merge_batch_lookup_mono:
  assumes "lookup (files st) p \<noteq> None"
  shows "lookup (files (final (for_each (\<lambda>d. mergeProfile d outputDir) ds st))) p \<noteq> None"
  using assms by (rule for_each_final) (rule mergeProfile_lookup_mono)

lemma batch_run_any:
  "Split_run [''in''] [''out''] shouldDelete batch_state
     = Thrown (CLIError ''Error processing profile B: Unclosed root tag'') batch_state_after_A"
  by (simp add: split_run_eval run_eval batch_state_def batch_state_after_A_def example_defs)

lemmas merge_run_eval = Merge_run_def existsSync_def ensure_dir_def render_path_def

lemma merge_batch_run:
  "Merge_run [''split''] [''merged''] shouldDelete merge_batch_state
     = Thrown (CLIError
         ''Error processing item file /split/B/fieldPermissions/broken.xml: Unexpected end'')
         merge_batch_state_after_A"
  by (simp add: merge_run_eval merge_eval merge_batch_state_def merge_batch_state_after_A_def
      example_defs example_merged_def)

section \<open>Batches\<close>

text \<open>
  C2, as amended. When the document of a unit fails to parse, the failure is raised as an
  error that carries the identifying name of the unit (the name of the profile, or the path
  of the artifact) and the message of the parser; the unit leaves no trace, and the run
  stops there: its outcome is that error, in the state reached when the units before the
  failing one had been processed. The units after it are not processed, and for a failing
  artifact no merged document is written for its profile directory.
\<close>

theorem failing_unit_stops_batch:
  "(existsSync (files st) inputDir
      \<and> ensure_dir outputDir st = Returned st0
      \<and> readdirSync (files st0) inputDir = Inr names
      \<and> profile_files inputDir names = before @ profileFile # rest
      \<and> for_each (\<lambda>f. splitProfile f outputDir) before st0 = Returned st1
      \<and> readFileSync (files st1) profileFile = Inr (Malformed msg)
    \<longrightarrow> Split_run inputDir outputDir shouldDelete st
          = Thrown (CLIError (''Error processing profile ''
                      @ basename_ext profileFile ''.profile-meta.xml'' @ '': '' @ msg)) st1)
   \<and> (existsSync (files st) inputDir
      \<and> ensure_dir outputDir st = Returned st0
      \<and> subdirectories (files st0) inputDir = Inr (dirs0 @ profileDir # dirs1)
      \<and> for_each (\<lambda>d. mergeProfile d outputDir) dirs0 st0 = Returned st1
      \<and> subdirectories (files st1) profileDir = Inr (cats0 @ categoryDir # cats1)
      \<and> for_each (merge_category (files st1)) cats0 [(''_xmlns'', JString canonical_xmlns)]
          = Returned p1
      \<and> readdirSync (files st1) categoryDir = Inr inames
      \<and> item_files categoryDir inames = earlier @ itemFile # later
      \<and> for_each (merge_item (files st1) (basename categoryDir)) earlier p1 = Returned p2
      \<and> readFileSync (files st1) itemFile = Inr (Malformed msg)
    \<longrightarrow> Merge_run inputDir outputDir shouldDelete st
          = Thrown (CLIError (''Error processing item file '' @ render_path itemFile
                      @ '': '' @ msg)) st1)"
proof (intro conjI impI)
  assume a: "existsSync (files st) inputDir
      \<and> ensure_dir outputDir st = Returned st0
      \<and> readdirSync (files st0) inputDir = Inr names
      \<and> profile_files inputDir names = before @ profileFile # rest
      \<and> for_each (\<lambda>f. splitProfile f outputDir) before st0 = Returned st1
      \<and> readFileSync (files st1) profileFile = Inr (Malformed msg)"
  let ?e = "CLIError (''Error processing profile ''
              @ basename_ext profileFile ''.profile-meta.xml'' @ '': '' @ msg)"
  from a have "splitProfile profileFile outputDir st1 = Thrown ?e st1"
    by (simp add: splitProfile_malformed)
  with a have "for_each (\<lambda>f. splitProfile f outputDir) (before @ profileFile # rest) st0
                 = Thrown ?e st1"
    by (simp add: for_each_append)
  with a show "Split_run inputDir outputDir shouldDelete st = Thrown ?e st1"
    by (simp add: Split_run_def)
next
  assume a: "existsSync (files st) inputDir
      \<and> ensure_dir outputDir st = Returned st0
      \<and> subdirectories (files st0) inputDir = Inr (dirs0 @ profileDir # dirs1)
      \<and> for_each (\<lambda>d. mergeProfile d outputDir) dirs0 st0 = Returned st1
      \<and> subdirectories (files st1) profileDir = Inr (cats0 @ categoryDir # cats1)
      \<and> for_each (merge_category (files st1)) cats0 [(''_xmlns'', JString canonical_xmlns)]
          = Returned p1
      \<and> readdirSync (files st1) categoryDir = Inr inames
      \<and> item_files categoryDir inames = earlier @ itemFile # later
      \<and> for_each (merge_item (files st1) (basename categoryDir)) earlier p1 = Returned p2
      \<and> readFileSync (files st1) itemFile = Inr (Malformed msg)"
  let ?e = "CLIError (''Error processing item file '' @ render_path itemFile @ '': '' @ msg)"
  from a have "merge_item (files st1) (basename categoryDir) itemFile p2 = Thrown ?e p2"
    by (simp add: merge_item_malformed)
  with a have "for_each (merge_item (files st1) (basename categoryDir))
                 (earlier @ itemFile # later) p1 = Thrown ?e p2"
    by (simp add: for_each_append)
  with a have "merge_category (files st1) categoryDir p1 = Thrown ?e p2"
    by (simp add: merge_category_def)
  with a have "for_each (merge_category (files st1)) (cats0 @ categoryDir # cats1)
                 [(''_xmlns'', JString canonical_xmlns)] = Thrown ?e p2"
    by (simp add: for_each_append)
  with a have "merged_profile (files st1) profileDir = Inl ?e"
    by (simp add: merged_profile_def)
  then have "mergeProfile profileDir outputDir st1 = Thrown ?e st1"
    by (simp add: mergeProfile_def)
  with a have "for_each (\<lambda>d. mergeProfile d outputDir) (dirs0 @ profileDir # dirs1) st0
                 = Thrown ?e st1"
    by (simp add: for_each_append)
  with a show "Merge_run inputDir outputDir shouldDelete st = Thrown ?e st1"
    by (simp add: Merge_run_def)
qed

lemma exists_kinds: "existsSync t p = (file_at t p \<noteq> None \<or> dir_at t p)"
  by (auto simp: existsSync_def file_at_def dir_at_def split: option.splits node.splits)

lemma ensure_dir_exists_mono:
  "existsSync (files st) p \<Longrightarrow> existsSync (files (final (ensure_dir q st))) p"
  using ensure_dir_dir_at_mono[of st p q] by (auto simp: exists_kinds ensure_dir_file_at)

text \<open>
  The theorem at two batches of three units whose second unit is malformed: three profiles
  to split, and three profile directories to merge.
\<close>

theorem failing_unit_stops_batch_witness:
  "Split_run [''in''] [''out''] False batch_state
     = Thrown (CLIError ''Error processing profile B: Unclosed root tag'') batch_state_after_A
   \<and> Merge_run [''split''] [''merged''] False merge_batch_state
     = Thrown (CLIError
         ''Error processing item file /split/B/fieldPermissions/broken.xml: Unexpected end'')
         merge_batch_state_after_A"
proof -
  have s1: "existsSync (files batch_state) [''in'']"
    and s2: "ensure_dir [''out''] batch_state = Returned batch_state"
    and s3: "readdirSync (files batch_state) [''in'']
               = Inr [''A.profile-meta.xml'', ''B.profile-meta.xml'', ''C.profile-meta.xml'']"
    by (simp_all add: existsSync_def ensure_dir_def readdirSync_def batch_state_def)
  have s4: "profile_files [''in'']
              [''A.profile-meta.xml'', ''B.profile-meta.xml'', ''C.profile-meta.xml'']
            = [[''in'', ''A.profile-meta.xml'']] @ [''in'', ''B.profile-meta.xml'']
                # [[''in'', ''C.profile-meta.xml'']]"
    by (simp add: profile_files_def ends_with_def path_join_def)
  have s5: "for_each (\<lambda>f. splitProfile f [''out'']) [[''in'', ''A.profile-meta.xml'']] batch_state
              = Returned batch_state_after_A"
    by (simp add: run_eval batch_state_def batch_state_after_A_def example_defs)
  have s6: "readFileSync (files batch_state_after_A) [''in'', ''B.profile-meta.xml'']
              = Inr (Malformed ''Unclosed root tag'')"
    by (simp add: readFileSync_def batch_state_after_A_def)
  have s7: "basename_ext [''in'', ''B.profile-meta.xml''] ''.profile-meta.xml'' = ''B''"
    by (simp add: basename_ext_def basename_def ends_with_def)
  have m1: "existsSync (files merge_batch_state) [''split'']"
    and m2: "ensure_dir [''merged''] merge_batch_state = Returned merge_batch_state"
    by (simp_all add: existsSync_def ensure_dir_def merge_batch_state_def)
  have m3: "subdirectories (files merge_batch_state) [''split'']
              = Inr ([[''split'', ''A'']] @ [''split'', ''B''] # [[''split'', ''C'']])"
    by (simp add: subdirectories_def readdirSync_def isDirectory_def path_join_def
        merge_batch_state_def)
  have m4: "for_each (\<lambda>d. mergeProfile d [''merged'']) [[''split'', ''A'']] merge_batch_state
              = Returned merge_batch_state_after_A"
    by (simp add: merge_eval merge_batch_state_def merge_batch_state_after_A_def example_defs
        example_merged_def)
  have m5: "subdirectories (files merge_batch_state_after_A) [''split'', ''B'']
              = Inr ([] @ [''split'', ''B'', ''fieldPermissions''] # [])"
    by (simp add: subdirectories_def readdirSync_def isDirectory_def path_join_def
        merge_batch_state_after_A_def)
  have m6: "for_each (merge_category (files merge_batch_state_after_A)) []
              [(''_xmlns'', JString canonical_xmlns)]
            = Returned [(''_xmlns'', JString canonical_xmlns)]"
    by simp
  have m7: "readdirSync (files merge_batch_state_after_A) [''split'', ''B'', ''fieldPermissions'']
              = Inr [''broken.xml'']"
    by (simp add: readdirSync_def merge_batch_state_after_A_def)
  have m8: "item_files [''split'', ''B'', ''fieldPermissions''] [''broken.xml'']
              = [] @ [''split'', ''B'', ''fieldPermissions'', ''broken.xml''] # []"
    by (simp add: item_files_def ends_with_def path_join_def)
  have m9: "for_each (merge_item (files merge_batch_state_after_A)
                (basename [''split'', ''B'', ''fieldPermissions''])) []
              [(''_xmlns'', JString canonical_xmlns)]
            = Returned [(''_xmlns'', JString canonical_xmlns)]"
    by simp
  have m10: "readFileSync (files merge_batch_state_after_A)
               [''split'', ''B'', ''fieldPermissions'', ''broken.xml'']
             = Inr (Malformed ''Unexpected end'')"
    by (simp add: readFileSync_def merge_batch_state_after_A_def)
  have m11: "render_path [''split'', ''B'', ''fieldPermissions'', ''broken.xml'']
               = ''/split/B/fieldPermissions/broken.xml''"
    by (simp add: render_path_def)
  note t = failing_unit_stops_batch[of batch_state "[''in'']" "[''out'']" batch_state
      "[''A.profile-meta.xml'', ''B.profile-meta.xml'', ''C.profile-meta.xml'']"
      "[[''in'', ''A.profile-meta.xml'']]" "[''in'', ''B.profile-meta.xml'']"
      "[[''in'', ''C.profile-meta.xml'']]" batch_state_after_A "''Unclosed root tag''" False]
  note u = failing_unit_stops_batch[of merge_batch_state "[''split'']" "[''merged'']"
      merge_batch_state _ _ _ _ merge_batch_state_after_A "''Unexpected end''" False
      "[[''split'', ''A'']]" "[''split'', ''B'']" "[[''split'', ''C'']]" "[]"
      "[''split'', ''B'', ''fieldPermissions'']" "[]" "[(''_xmlns'', JString canonical_xmlns)]"
      "[''broken.xml'']" "[]" "[''split'', ''B'', ''fieldPermissions'', ''broken.xml'']" "[]"
      "[(''_xmlns'', JString canonical_xmlns)]"]
  from t s1 s2 s3 s4 s5 s6 s7
  have a: "Split_run [''in''] [''out''] False batch_state
     = Thrown (CLIError ''Error processing profile B: Unclosed root tag'') batch_state_after_A"
    by simp
  from u m1 m2 m3 m4 m5 m6 m7 m8 m9 m10 m11
  have b: "Merge_run [''split''] [''merged''] False merge_batch_state
     = Thrown (CLIError
         ''Error processing item file /split/B/fieldPermissions/broken.xml: Unexpected end'')
         merge_batch_state_after_A"
    by simp
  from a b show ?thesis by simp
qed

text \<open>
  C2 as the specification states it fails on the batch of three profiles: the third profile is well
  formed, yet after the run there is nothing for it in the output.
\<close>

theorem sibling_units_not_processed_counterexample:
  "Split_run [''in''] [''out''] False batch_state
     = Thrown (CLIError ''Error processing profile B: Unclosed root tag'') batch_state_after_A
   \<and> readFileSync (files batch_state) [''in'', ''C.profile-meta.xml'']
     = Inr example_document
   \<and> dir_at (files batch_state_after_A) [''out'', ''A'']
   \<and> \<not> existsSync (files batch_state_after_A) [''out'', ''C'']"
  by (simp add: batch_run_any)
     (simp add: batch_state_def batch_state_after_A_def readFileSync_def existsSync_def at_simps)

lemma unlinkSync_file_at:
  "unlinkSync fsys p = Inr fsys' \<Longrightarrow>
     file_at fsys' q = (if q = p then None else file_at fsys q)"
proof (induction fsys p arbitrary: fsys' q rule: unlinkSync.induct)
  case (3 es x)
  then show ?case
    by (cases q)
       (auto simp: at_simps delete_conv' split: option.splits node.splits if_splits)
next
  case (4 es x y ys)
  then obtain ch ch' where ch: "map_of es x = Some ch"
    and u: "unlinkSync ch (y # ys) = Inr ch'" and f: "fsys' = Dir (AList.update x ch' es)"
    by (auto split: option.splits sum.splits)
  from "4.IH"[OF ch u]
  have ih: "\<And>q. file_at ch' q = (if q = y # ys then None else file_at ch q)" .
  show ?case
    by (cases q) (auto simp: f ch at_simps update_conv' ih split: option.splits)
qed simp_all

lemma unlinkSync_ok:
  "p \<noteq> [] \<Longrightarrow> file_at fsys p \<noteq> None \<Longrightarrow> \<exists>fsys'. unlinkSync fsys p = Inr fsys'"
proof (induction fsys p rule: unlinkSync.induct)
  case (1 c p)
  then show ?case by (cases p) (simp_all add: at_simps)
next
  case (2 es)
  then show ?case by (simp add: at_simps)
next
  case (3 es x)
  then show ?case by (auto simp: at_simps split: option.splits node.splits)
next
  case (4 es x y ys)
  then show ?case by (auto simp: at_simps split: option.splits)
qed

lemma unlink_all_returns:
  "distinct ps \<Longrightarrow> [] \<notin> set ps \<Longrightarrow> (\<And>p. p \<in> set ps \<Longrightarrow> file_at (files s) p \<noteq> None) \<Longrightarrow>
     returned (for_each unlink_original ps s)"
proof (induction ps arbitrary: s)
  case Nil
  then show ?case by simp
next
  case (Cons p ps)
  from Cons.prems(2) have pne: "p \<noteq> []" by auto
  from unlinkSync_ok[OF pne Cons.prems(3)[of p]] obtain fsys' where
    u: "unlinkSync (files s) p = Inr fsys'" by auto
  let ?s1 = "s\<lparr>files := fsys'\<rparr>"
  have step: "unlink_original p s = Returned ?s1" by (simp add: unlink_original_def u)
  have "returned (for_each unlink_original ps ?s1)"
  proof (rule Cons.IH)
    show "distinct ps" using Cons.prems(1) by simp
    show "[] \<notin> set ps" using Cons.prems(2) by simp
    fix q assume q: "q \<in> set ps"
    with Cons.prems(1) have "q \<noteq> p" by auto
    with Cons.prems(3)[of q] q show "file_at (files ?s1) q \<noteq> None"
      by (simp add: unlinkSync_file_at[OF u])
  qed
  with step show ?case by simp
qed

lemma splitProfile_returned_file:
  "splitProfile f outputDir st = Returned s \<Longrightarrow> file_at (files st) f \<noteq> None"
  by (auto simp: splitProfile_def Let_def readFileSync_def file_at_def
      split: sum.splits option.splits node.splits)

lemma split_batch_files:
  "for_each (\<lambda>f. splitProfile f outputDir) fs st = Returned s2 \<Longrightarrow> f \<in> set fs \<Longrightarrow>
     file_at (files s2) f \<noteq> None"
proof (induction fs arbitrary: st)
  case Nil
  then show ?case by simp
next
  case (Cons g gs)
  from Cons.prems(1) obtain s1 where a: "splitProfile g outputDir st = Returned s1"
    and b: "for_each (\<lambda>f. splitProfile f outputDir) gs s1 = Returned s2"
    by (auto split: outcome.splits)
  show ?case
  proof (cases "f \<in> set gs")
    case True
    from Cons.IH[OF b True] show ?thesis .
  next
    case False
    with Cons.prems(2) have fg: "f = g" by simp
    from splitProfile_returned_file[OF a] have "file_at (files st) g \<noteq> None" .
    from splitProfile_file_mono[OF this, of g outputDir] a
    have "file_at (files s1) g \<noteq> None" by simp
    from split_batch_file_mono[OF this, of outputDir gs] b fg show ?thesis by simp
  qed
qed

lemma profile_files_distinct:
  assumes "distinct names" and "list_all simple_name names"
  shows "distinct (profile_files inputDir names) \<and> [] \<notin> set (profile_files inputDir names)"
proof -
  let ?ns = "filter (ends_with ''.profile-meta.xml'') names"
  have m: "map (path_join inputDir) ?ns = map (\<lambda>n. inputDir @ [n]) ?ns"
    using assms(2) by (auto simp: list_all_iff path_join_simple)
  have d: "distinct (map (\<lambda>n. inputDir @ [n]) ?ns)"
    using assms(1) by (simp add: distinct_map inj_on_def)
  have e: "[] \<notin> set (map (\<lambda>n. inputDir @ [n]) ?ns)" by auto
  from d e show ?thesis unfolding profile_files_def by (simp only: m) simp
qed

lemma well_formed_entries_iff:
  "well_formed_entries es = (\<forall>e \<in> set es. simple_name (fst e) \<and> well_formed (snd e))"
  by (induction es) auto

lemma well_formed_entry:
  "well_formed_entries es \<Longrightarrow> map_of es x = Some ch \<Longrightarrow> simple_name x \<and> well_formed ch"
proof -
  assume w: "well_formed_entries es" and m: "map_of es x = Some ch"
  from m have "(x, ch) \<in> set es" by (rule map_of_SomeD)
  with w show ?thesis unfolding well_formed_entries_iff by fastforce
qed

lemma well_formed_update:
  "well_formed_entries es \<Longrightarrow> simple_name k \<Longrightarrow> well_formed v \<Longrightarrow>
     well_formed_entries (AList.update k v es)"
  by (induction es) auto

lemma well_formed_delete:
  "well_formed_entries es \<Longrightarrow> well_formed_entries (AList.delete k es)"
  by (induction es) auto

lemma delete_head: "k \<notin> fst ` set es \<Longrightarrow> AList.delete k es = es"
  by (induction es) auto

lemma remove_at_Cons:
  "q \<noteq> [] \<Longrightarrow> remove_at (x # q) (Dir es) =
     (case map_of es x of
        None \<Rightarrow> Dir es
      | Some ch \<Rightarrow> Dir (AList.update x (remove_at q ch) es))"
  by (cases q) (simp_all split: option.splits)

lemma remove_at_File: "remove_at p (File c) = File c"
  by (cases p) simp_all

lemma unlinkSync_remove:
  "lookup fsys p = Some (File c) \<Longrightarrow> p \<noteq> [] \<Longrightarrow> unlinkSync fsys p = Inr (remove_at p fsys)"
proof (induction fsys p rule: unlinkSync.induct)
  case (1 c' p)
  then show ?case by (cases p) simp_all
next
  case (4 es x y ys)
  then show ?case by (auto split: option.splits)
qed (auto split: option.splits)

lemma rmdirSync_remove:
  "lookup fsys p = Some (Dir []) \<Longrightarrow> p \<noteq> [] \<Longrightarrow> rmdirSync fsys p = Inr (remove_at p fsys)"
proof (induction fsys p rule: rmdirSync.induct)
  case (1 c' p)
  then show ?case by (cases p) simp_all
next
  case (4 es x y ys)
  then show ?case by (auto split: option.splits)
qed (auto split: option.splits)

lemma graft_same: "lookup fsys p = Some n \<Longrightarrow> graft p n fsys = fsys"
proof (induction p arbitrary: fsys)
  case Nil
  then show ?case by simp
next
  case (Cons x xs)
  then show ?case
    by (cases fsys) (auto simp: update_triv split: option.splits)
qed

lemma lookup_graft: "lookup fsys p \<noteq> None \<Longrightarrow> lookup (graft p n fsys) p = Some n"
proof (induction p arbitrary: fsys)
  case Nil
  then show ?case by simp
next
  case (Cons x xs)
  then show ?case
    by (cases fsys) (auto simp: update_conv' split: option.splits)
qed

lemma lookup_remove_last:
  "lookup fsys dir = Some (Dir es) \<Longrightarrow>
     lookup (remove_at (dir @ [n]) fsys) dir = Some (Dir (AList.delete n es))"
proof (induction dir arbitrary: fsys)
  case Nil
  then show ?case by simp
next
  case (Cons x xs)
  then show ?case
    by (cases fsys) (auto simp: remove_at_Cons update_conv' split: option.splits)
qed

lemma graft_remove: "graft dir m (remove_at (dir @ [n]) fsys) = graft dir m fsys"
proof (induction dir arbitrary: fsys)
  case Nil
  then show ?case by simp
next
  case (Cons x xs)
  then show ?case
    by (cases fsys) (auto simp: remove_at_Cons update_conv' split: option.splits)
qed

lemma remove_graft: "dir \<noteq> [] \<Longrightarrow> remove_at dir (graft dir m fsys) = remove_at dir fsys"
proof (induction dir fsys rule: remove_at.induct)
  case (3 x es)
  then show ?case by (auto simp: delete_update_same split: option.splits)
next
  case (4 x y ys es)
  then show ?case by (auto simp: update_conv' split: option.splits)
qed simp_all


lemma deleteDirectory_in_removes:
  "well_formed n \<Longrightarrow> lookup fsys directory = Some n \<Longrightarrow> directory \<noteq> [] \<Longrightarrow>
     (\<exists>sub. n = Dir sub) \<Longrightarrow>
     deleteDirectory_in n directory fsys = Returned (remove_at directory fsys)"
  and deleteDirectory_entries_empties:
  "well_formed_entries es \<Longrightarrow> distinct (map fst es) \<Longrightarrow>
     lookup fsys directory = Some (Dir cur) \<Longrightarrow> set cur = set es \<Longrightarrow>
     deleteDirectory_entries es directory fsys = Returned (graft directory (Dir []) fsys)"
proof (induction n directory fsys and es directory fsys arbitrary: and cur
    rule: deleteDirectory_in_deleteDirectory_entries.induct)
  case (1 c directory fsys)
  then show ?case by simp
next
  case (2 es directory fsys)
  from "2.prems"(1) have w: "well_formed_entries es" and d: "distinct (map fst es)"
    by simp_all
  have w': "well_formed_entries (sort_key fst es)"
    using w by (simp add: well_formed_entries_iff)
  have "mset (map fst (sort_key fst es)) = mset (map fst es)" by simp
  from mset_eq_imp_distinct_iff[OF this] d
  have d': "distinct (map fst (sort_key fst es))" by blast
  have s: "set es = set (sort_key fst es)" by simp
  from "2.IH"[OF w' d' "2.prems"(2) s]
  have e: "deleteDirectory_entries (sort_key fst es) directory fsys
             = Returned (graft directory (Dir []) fsys)" .
  from "2.prems"(2) have "lookup fsys directory \<noteq> None" by simp
  then have "lookup (graft directory (Dir []) fsys) directory = Some (Dir [])"
    by (rule lookup_graft)
  from rmdirSync_remove[OF this "2.prems"(3)]
  have "rmdirSync (graft directory (Dir []) fsys) directory = Inr (remove_at directory fsys)"
    by (simp add: remove_graft[OF "2.prems"(3)])
  with e show ?case by simp
next
  case (3 directory fsys)
  then show ?case by (simp add: graft_same)
next
  case (4 entry rest directory fsys)
  let ?p = "directory @ [fst entry]"
  from "4.prems"(1) have sn: "simple_name (fst entry)" and wn: "well_formed (snd entry)"
    and wr: "well_formed_entries rest" by simp_all
  from "4.prems"(2) have fresh: "fst entry \<notin> fst ` set rest" and dr: "distinct (map fst rest)"
    by simp_all
  have pj: "path_join directory (fst entry) = ?p" using sn by (rule path_join_simple)
  have "(fst entry, snd entry) \<in> set cur" using "4.prems"(4) by simp
  moreover have "\<And>v. (fst entry, v) \<in> set cur \<Longrightarrow> v = snd entry"
  proof -
    fix v assume "(fst entry, v) \<in> set cur"
    with "4.prems"(4) have "(fst entry, v) = entry \<or> (fst entry, v) \<in> set rest" by simp
    with fresh have "(fst entry, v) = entry" by (auto simp: image_iff)
    then have "snd (fst entry, v) = snd entry" by (simp only:)
    then show "v = snd entry" by simp
  qed
  ultimately have m: "map_of cur (fst entry) = Some (snd entry)"
    by (cases "map_of cur (fst entry)") (auto simp: map_of_eq_None_iff image_iff dest: map_of_SomeD)
  have lk: "lookup fsys ?p = Some (snd entry)"
    by (simp add: lookup_append "4.prems"(3) m)
  have rest: "lookup (remove_at ?p fsys) directory = Some (Dir (AList.delete (fst entry) cur))"
    by (rule lookup_remove_last[OF "4.prems"(3)])
  have cur': "set (AList.delete (fst entry) cur) = set rest"
    using "4.prems"(4) fresh by (auto simp: AList.delete_eq image_iff)
  have fin: "graft directory (Dir []) (remove_at ?p fsys) = graft directory (Dir []) fsys"
    by (rule graft_remove)
  show ?case
  proof (cases "snd entry")
    case (File c)
    from lk File have "unlinkSync fsys ?p = Inr (remove_at ?p fsys)"
      by (intro unlinkSync_remove) simp_all
    then have step: "unlinkSync fsys (path_join directory (fst entry)) = Inr (remove_at ?p fsys)"
      by (simp only: pj)
    have "deleteDirectory_entries rest directory (remove_at ?p fsys)
            = Returned (graft directory (Dir []) (remove_at ?p fsys))"
      by (rule "4.IH"(2)[OF _ wr dr rest cur']) (simp add: File step)
    with File step fin show ?thesis by simp
  next
    case (Dir sub)
    have "deleteDirectory_in (snd entry) (path_join directory (fst entry)) fsys
            = Returned (remove_at (path_join directory (fst entry)) fsys)"
      by (rule "4.IH"(1)[OF Dir wn]) (simp_all add: pj lk Dir)
    then have step: "deleteDirectory_in (snd entry) (path_join directory (fst entry)) fsys
            = Returned (remove_at ?p fsys)"
      by (simp only: pj)
    have "deleteDirectory_entries rest directory (remove_at ?p fsys)
            = Returned (graft directory (Dir []) (remove_at ?p fsys))"
      by (rule "4.IH"(2)[OF _ wr dr rest cur']) (use step in \<open>simp add: Dir\<close>)
    with Dir step fin show ?thesis by simp
  qed
qed

lemma well_formed_remove: "well_formed fsys \<Longrightarrow> well_formed (remove_at p fsys)"
proof (induction p fsys rule: remove_at.induct)
  case (3 x es)
  then show ?case by (simp add: distinct_delete well_formed_delete)
next
  case (4 x y ys es)
  show ?case
  proof (cases "map_of es x")
    case None
    with "4.prems" show ?thesis by simp
  next
    case (Some ch)
    from "4.prems" have w: "well_formed_entries es" and d: "distinct (map fst es)" by simp_all
    from well_formed_entry[OF w Some] have sx: "simple_name x" and wc: "well_formed ch"
      by simp_all
    from "4.IH"[OF Some wc] have "well_formed (remove_at (y # ys) ch)" .
    with w sx d Some show ?thesis by (simp add: distinct_update well_formed_update)
  qed
qed simp_all

lemma well_formed_lookup: "well_formed fsys \<Longrightarrow> lookup fsys p = Some n \<Longrightarrow> well_formed n"
proof (induction p arbitrary: fsys)
  case Nil
  then show ?case by simp
next
  case (Cons x xs)
  then show ?case
    by (cases fsys) (auto split: option.splits dest: well_formed_entry)
qed

lemma lookup_remove_other:
  "a \<noteq> b \<Longrightarrow> lookup (remove_at (P @ [a]) fsys) (P @ [b]) = lookup fsys (P @ [b])"
proof (induction P arbitrary: fsys)
  case Nil
  then show ?case by (cases fsys) (simp_all add: delete_conv')
next
  case (Cons x xs)
  then show ?case
    by (cases fsys) (auto simp: remove_at_Cons update_conv' split: option.splits)
qed

lemma deleteDirectory_removes:
  assumes "well_formed (files st)" and "dir_at (files st) p" and "p \<noteq> []"
  shows "deleteDirectory p st = Returned (st\<lparr>files := remove_at p (files st)\<rparr>)"
proof -
  from assms(2) obtain sub where l: "lookup (files st) p = Some (Dir sub)"
    by (auto simp: dir_at_def split: option.splits node.splits)
  from well_formed_lookup[OF assms(1) l] have "well_formed (Dir sub)" .
  from deleteDirectory_in_removes[OF this l assms(3)]
  have "deleteDirectory_in (Dir sub) p (files st) = Returned (remove_at p (files st))"
    by simp
  with l show ?thesis by (simp add: deleteDirectory_def)
qed

lemma delete_all_returns:
  "well_formed (files st) \<Longrightarrow> distinct ds \<Longrightarrow>
     (\<And>d. d \<in> set ds \<Longrightarrow> dir_at (files st) (P @ [d])) \<Longrightarrow>
     returned (for_each deleteDirectory (map (\<lambda>d. P @ [d]) ds) st)"
proof (induction ds arbitrary: st)
  case Nil
  then show ?case by simp
next
  case (Cons a ds)
  let ?s = "st\<lparr>files := remove_at (P @ [a]) (files st)\<rparr>"
  have step: "deleteDirectory (P @ [a]) st = Returned ?s"
    using Cons.prems(1) by (rule deleteDirectory_removes) (simp_all add: Cons.prems(3))
  have w: "well_formed (files ?s)" using Cons.prems(1) by (simp add: well_formed_remove)
  have "returned (for_each deleteDirectory (map (\<lambda>d. P @ [d]) ds) ?s)"
  proof (rule Cons.IH[OF w])
    from Cons.prems(2) show "distinct ds" by simp
  next
    fix d assume d: "d \<in> set ds"
    with Cons.prems(2) have "a \<noteq> d" by auto
    from lookup_remove_other[OF this, of P "files st"] Cons.prems(3)[of d] d
    show "dir_at (files ?s) (P @ [d])" by (simp add: dir_at_def)
  qed
  with step show ?case by simp
qed


lemma filter_dirs_dirs:
  "filter_dirs fsys P names = Inr ds \<Longrightarrow> list_all simple_name names \<Longrightarrow>
     ds = filter (\<lambda>n. dir_at fsys (P @ [n])) names"
proof (induction names arbitrary: ds)
  case Nil
  then show ?case by simp
next
  case (Cons x xs)
  from Cons.prems(2) have sx: "simple_name x" and sxs: "list_all simple_name xs" by simp_all
  from Cons.prems(1) obtain b ds' where b: "isDirectory fsys (path_join P x) = Inr b"
    and f: "filter_dirs fsys P xs = Inr ds'" and d: "ds = (if b then x # ds' else ds')"
    by (auto split: sum.splits)
  from b have "b = dir_at fsys (P @ [x])"
    by (auto simp: path_join_simple[OF sx] isDirectory_def dir_at_def
        split: option.splits node.splits)
  with Cons.IH[OF f sxs] d show ?case by simp
qed

lemma subdirectories_shape:
  assumes "subdirectories fsys P = Inr dirs" and "well_formed fsys"
  shows "\<exists>ds. dirs = map (\<lambda>n. P @ [n]) ds \<and> distinct ds \<and> list_all simple_name ds
           \<and> (\<forall>d \<in> set ds. dir_at fsys (P @ [d]))"
proof -
  from assms(1) obtain names ds where r: "readdirSync fsys P = Inr names"
    and f: "filter_dirs fsys P names = Inr ds" and d: "dirs = map (path_join P) ds"
    by (auto simp: subdirectories_def split: sum.splits)
  from r obtain es where l: "lookup fsys P = Some (Dir es)" and n: "names = sort (map fst es)"
    by (auto simp: readdirSync_def split: option.splits node.splits)
  from well_formed_lookup[OF assms(2) l] have dn: "distinct names"
    and sn: "list_all simple_name names"
    by (auto simp: n well_formed_entries_iff list_all_iff)
  note k = filter_dirs_dirs[OF f sn]
  from k dn have dd: "distinct ds" by simp
  from k sn have sd: "list_all simple_name ds" by (auto simp: list_all_iff)
  from k have da: "\<forall>d \<in> set ds. dir_at fsys (P @ [d])" by simp
  from sd have "map (path_join P) ds = map (\<lambda>n. P @ [n]) ds"
    by (auto simp: list_all_iff path_join_simple)
  with d dd sd da show ?thesis by auto
qed

lemma writeFileSync_well_formed:
  "writeFileSync fsys p c = Inr fsys' \<Longrightarrow> well_formed fsys \<Longrightarrow>
     (p \<noteq> [] \<Longrightarrow> simple_name (last p)) \<Longrightarrow> well_formed fsys'"
proof (induction fsys p c arbitrary: fsys' rule: writeFileSync.induct)
  case (1 old c)
  then show ?case by auto
next
  case (2 old x xs c)
  then show ?case by simp
next
  case (3 es c)
  then show ?case by simp
next
  case (4 es x xs c)
  from "4.prems"(2) have w: "well_formed_entries es" and d: "distinct (map fst es)" by simp_all
  show ?case
  proof (cases "map_of es x")
    case None
    with "4.prems"(1) have xs: "xs = []" and f: "fsys' = Dir (AList.update x (File c) es)"
      by (auto split: if_splits)
    from "4.prems"(3) xs have "simple_name x" by simp
    with w d f show ?thesis by (simp add: distinct_update well_formed_update)
  next
    case (Some ch)
    with "4.prems"(1) obtain ch' where u: "writeFileSync ch xs c = Inr ch'"
      and f: "fsys' = Dir (AList.update x ch' es)"
      by (auto split: sum.splits)
    from well_formed_entry[OF w Some] have sx: "simple_name x" and wc: "well_formed ch"
      by simp_all
    have "well_formed ch'"
    proof (rule "4.IH"[OF Some u wc])
      assume "xs \<noteq> []"
      with "4.prems"(3) show "simple_name (last xs)" by simp
    qed
    with w d sx f show ?thesis by (simp add: distinct_update well_formed_update)
  qed
qed

lemma simple_name_meta: "simple_name d \<Longrightarrow> simple_name (d @ ''.profile-meta.xml'')"
  by (auto simp: simple_name_def)

lemma mergeProfile_well_formed:
  assumes "well_formed (files st)" and "simple_name d"
  shows "well_formed (files (final (mergeProfile (P @ [d]) outputDir st)))"
proof -
  have j: "path_join outputDir (basename (P @ [d]) @ ''.profile-meta.xml'')
             = outputDir @ [d @ ''.profile-meta.xml'']"
    using simple_name_meta[OF assms(2)] by (simp add: basename_def path_join_simple)
  show ?thesis
    using assms
    by (auto simp: mergeProfile_def Let_def j simple_name_meta split: sum.splits
        intro: writeFileSync_well_formed)
qed

lemma merge_batch_well_formed:
  assumes "well_formed (files st)" and "list_all simple_name ds"
  shows "well_formed (files (final (for_each (\<lambda>d. mergeProfile d outputDir)
           (map (\<lambda>n. P @ [n]) ds) st)))"
  using assms(1)
proof (rule for_each_final)
  fix x and s :: state
  assume x: "x \<in> set (map (\<lambda>n. P @ [n]) ds)" and w: "well_formed (files s)"
  from x obtain d where d: "x = P @ [d]" and "d \<in> set ds" by auto
  with assms(2) have "simple_name d" by (simp add: list_all_iff)
  from mergeProfile_well_formed[OF w this] d
  show "well_formed (files (final (mergeProfile x outputDir s)))" by simp
qed

lemma mergeProfile_dir_at:
  "dir_at (files (final (mergeProfile d outputDir st))) q = dir_at (files st) q"
  by (auto simp: mergeProfile_def Let_def split: sum.splits dest: writeFileSync_dir_at)

lemma merge_batch_dir_at:
  assumes "dir_at (files st) q"
  shows "dir_at (files (final (for_each (\<lambda>d. mergeProfile d outputDir) ds st))) q"
  using assms
proof (rule for_each_final)
  fix x and s :: state
  assume "dir_at (files s) q"
  then show "dir_at (files (final (mergeProfile x outputDir s))) q"
    by (simp only: mergeProfile_dir_at)
qed

lemma merge_delete_returns:
  assumes "subdirectories (files st0) inputDir = Inr profileDirs"
    and "well_formed (files st0)"
    and "for_each (\<lambda>d. mergeProfile d outputDir) profileDirs st0 = Returned s2"
  shows "returned (for_each deleteDirectory profileDirs s2)"
proof -
  from subdirectories_shape[OF assms(1,2)] obtain ds
    where p: "profileDirs = map (\<lambda>n. inputDir @ [n]) ds" and dd: "distinct ds"
      and sd: "list_all simple_name ds"
      and da: "\<forall>d \<in> set ds. dir_at (files st0) (inputDir @ [d])"
    by blast
  from merge_batch_well_formed[OF assms(2) sd, of outputDir inputDir] assms(3)
  have w: "well_formed (files s2)" by (simp add: p)
  have "returned (for_each deleteDirectory (map (\<lambda>n. inputDir @ [n]) ds) s2)"
    using w dd
  proof (rule delete_all_returns)
    fix d assume "d \<in> set ds"
    with da have "dir_at (files st0) (inputDir @ [d])" by simp
    from merge_batch_dir_at[OF this, of outputDir profileDirs] assms(3)
    show "dir_at (files s2) (inputDir @ [d])" by simp
  qed
  then show ?thesis by (simp only: p)
qed

text \<open>
  C3, as amended. With the delete flag set and a batch that is not empty: if a unit fails,
  the run ends with the error of that unit and no original is removed, neither the one of
  the failing unit nor those of the units processed before it (every file, for a merge
  every file and directory, that existed before the run still exists). If every unit has
  been processed without an error, the run continues as the loop that removes the
  originals, started in the state in which all units have been processed; when that loop
  returns, none of the originals exists any more. It does return: for a split when the
  input directory lists its entries under single path segments, no two alike, for a merge
  when the tree in which the units are processed is well-formed.
\<close>

theorem deletion_only_after_all_units:
  "(existsSync (files st) inputDir
      \<and> ensure_dir outputDir st = Returned st0
      \<and> readdirSync (files st0) inputDir = Inr names
      \<and> profile_files inputDir names \<noteq> []
    \<longrightarrow> (for_each (\<lambda>f. splitProfile f outputDir) (profile_files inputDir names) st0
            = Thrown e s
          \<longrightarrow> Split_run inputDir outputDir True st = Thrown e s
              \<and> (\<forall>p. file_at (files st) p \<noteq> None \<longrightarrow> file_at (files s) p \<noteq> None))
        \<and> (for_each (\<lambda>f. splitProfile f outputDir) (profile_files inputDir names) st0
            = Returned s2
          \<longrightarrow> Split_run inputDir outputDir True st
                = for_each unlink_original (profile_files inputDir names) s2
              \<and> (Split_run inputDir outputDir True st = Returned s
                  \<longrightarrow> (\<forall>f \<in> set (profile_files inputDir names). \<not> existsSync (files s) f))
              \<and> (distinct names \<and> list_all simple_name names
                  \<longrightarrow> returned (Split_run inputDir outputDir True st))))
   \<and> (existsSync (files st) inputDir
      \<and> ensure_dir outputDir st = Returned st0
      \<and> subdirectories (files st0) inputDir = Inr profileDirs
      \<and> profileDirs \<noteq> []
    \<longrightarrow> (for_each (\<lambda>d. mergeProfile d outputDir) profileDirs st0 = Thrown e s
          \<longrightarrow> Merge_run inputDir outputDir True st = Thrown e s
              \<and> (\<forall>p. existsSync (files st) p \<longrightarrow> existsSync (files s) p))
        \<and> (for_each (\<lambda>d. mergeProfile d outputDir) profileDirs st0 = Returned s2
          \<longrightarrow> Merge_run inputDir outputDir True st = for_each deleteDirectory profileDirs s2
              \<and> (Merge_run inputDir outputDir True st = Returned s
                  \<longrightarrow> (\<forall>d \<in> set profileDirs. \<not> existsSync (files s) d))
              \<and> (well_formed (files st0)
                  \<longrightarrow> returned (Merge_run inputDir outputDir True st))))"
proof (intro conjI impI)
  assume a: "existsSync (files st) inputDir \<and> ensure_dir outputDir st = Returned st0
      \<and> readdirSync (files st0) inputDir = Inr names \<and> profile_files inputDir names \<noteq> []"
    and t: "for_each (\<lambda>f. splitProfile f outputDir) (profile_files inputDir names) st0
              = Thrown e s"
  from a t show "Split_run inputDir outputDir True st = Thrown e s"
    by (simp add: Split_run_def)
  show "\<forall>p. file_at (files st) p \<noteq> None \<longrightarrow> file_at (files s) p \<noteq> None"
  proof (intro allI impI)
    fix p assume "file_at (files st) p \<noteq> None"
    with a have "file_at (files st0) p \<noteq> None"
      using ensure_dir_file_at[of outputDir st p] by simp
    from split_batch_file_mono[OF this, of outputDir "profile_files inputDir names"] t
    show "file_at (files s) p \<noteq> None" by simp
  qed
next
  assume a: "existsSync (files st) inputDir \<and> ensure_dir outputDir st = Returned st0
      \<and> readdirSync (files st0) inputDir = Inr names \<and> profile_files inputDir names \<noteq> []"
    and r: "for_each (\<lambda>f. splitProfile f outputDir) (profile_files inputDir names) st0
              = Returned s2"
  from a r show run: "Split_run inputDir outputDir True st
      = for_each unlink_original (profile_files inputDir names) s2"
    by (simp add: Split_run_def)
  {
    assume "Split_run inputDir outputDir True st = Returned s"
    with run have "for_each unlink_original (profile_files inputDir names) s2 = Returned s"
      by simp
    from unlink_all_gone[OF this]
    show "\<forall>f \<in> set (profile_files inputDir names). \<not> existsSync (files s) f"
      by (simp add: existsSync_def)
  }
  assume wf: "distinct names \<and> list_all simple_name names"
  then have d: "distinct (profile_files inputDir names)"
    and n: "[] \<notin> set (profile_files inputDir names)"
    using profile_files_distinct[of names inputDir] by simp_all
  have "returned (for_each unlink_original (profile_files inputDir names) s2)"
    using d n by (rule unlink_all_returns) (rule split_batch_files[OF r])
  with run show "returned (Split_run inputDir outputDir True st)" by simp
next
  assume a: "existsSync (files st) inputDir \<and> ensure_dir outputDir st = Returned st0
      \<and> subdirectories (files st0) inputDir = Inr profileDirs \<and> profileDirs \<noteq> []"
    and t: "for_each (\<lambda>d. mergeProfile d outputDir) profileDirs st0 = Thrown e s"
  from a t show "Merge_run inputDir outputDir True st = Thrown e s"
    by (simp add: Merge_run_def)
  show "\<forall>p. existsSync (files st) p \<longrightarrow> existsSync (files s) p"
  proof (intro allI impI)
    fix p assume "existsSync (files st) p"
    with a have "existsSync (files st0) p"
      using ensure_dir_exists_mono[of st p outputDir] by simp
    then have "lookup (files st0) p \<noteq> None" by (simp add: existsSync_def)
    from merge_batch_lookup_mono[OF this, of outputDir profileDirs] t
    show "existsSync (files s) p" by (simp add: existsSync_def)
  qed
next
  assume a: "existsSync (files st) inputDir \<and> ensure_dir outputDir st = Returned st0
      \<and> subdirectories (files st0) inputDir = Inr profileDirs \<and> profileDirs \<noteq> []"
    and r: "for_each (\<lambda>d. mergeProfile d outputDir) profileDirs st0 = Returned s2"
  from a r show run: "Merge_run inputDir outputDir True st
      = for_each deleteDirectory profileDirs s2"
    by (simp add: Merge_run_def)
  {
    assume "Merge_run inputDir outputDir True st = Returned s"
    with run have "for_each deleteDirectory profileDirs s2 = Returned s" by simp
    from delete_all_gone[OF this]
    show "\<forall>d \<in> set profileDirs. \<not> existsSync (files s) d"
      by (simp add: existsSync_def)
  }
  assume "well_formed (files st0)"
  with a have "returned (for_each deleteDirectory profileDirs s2)"
    using r by (intro merge_delete_returns[of st0 inputDir profileDirs outputDir]) simp_all
  with run show "returned (Merge_run inputDir outputDir True st)" by simp
qed

text \<open>
  The theorem at the batch with the malformed second profile, where everything is kept, at
  the example installation, where both profiles are split and then removed, and at the
  example split tree, whose profile directory is merged and then removed.
\<close>

theorem deletion_only_after_all_units_witness:
  "Split_run [''in''] [''out''] True batch_state
     = Thrown (CLIError ''Error processing profile B: Unclosed root tag'') batch_state_after_A
   \<and> file_at (files batch_state_after_A) [''in'', ''A.profile-meta.xml''] \<noteq> None
   \<and> file_at (files batch_state_after_A) [''in'', ''B.profile-meta.xml''] \<noteq> None
   \<and> for_each (\<lambda>f. splitProfile f [''out''])
         [[''in'', ''Admin.profile-meta.xml''], [''in'', ''Bare.profile-meta.xml'']] example_state
       = Returned example_state_split
   \<and> Split_run [''in''] [''out''] True example_state = Returned example_state_done
   \<and> \<not> existsSync (files example_state_done) [''in'', ''Admin.profile-meta.xml'']
   \<and> \<not> existsSync (files example_state_done) [''in'', ''Bare.profile-meta.xml'']
   \<and> well_formed (files example_split_state)
   \<and> returned (Merge_run [''split''] [''merged''] True example_split_state)
   \<and> \<not> existsSync (files (final (Merge_run [''split''] [''merged''] True example_split_state)))
        [''split'', ''Admin'']"
proof -
  let ?batch = "[''A.profile-meta.xml'', ''B.profile-meta.xml'', ''C.profile-meta.xml'']"
  let ?e = "CLIError ''Error processing profile B: Unclosed root tag''"
  have b1: "existsSync (files batch_state) [''in'']
      \<and> ensure_dir [''out''] batch_state = Returned batch_state
      \<and> readdirSync (files batch_state) [''in''] = Inr ?batch
      \<and> profile_files [''in''] ?batch \<noteq> []"
    by (simp add: existsSync_def ensure_dir_def readdirSync_def batch_state_def
        profile_files_def ends_with_def)
  have b2: "for_each (\<lambda>f. splitProfile f [''out'']) (profile_files [''in''] ?batch) batch_state
              = Thrown ?e batch_state_after_A"
    by (simp add: run_eval profile_files_def batch_state_def batch_state_after_A_def
        example_defs)
  have b3: "file_at (files batch_state) [''in'', ''A.profile-meta.xml''] \<noteq> None"
    and b4: "file_at (files batch_state) [''in'', ''B.profile-meta.xml''] \<noteq> None"
    by (simp_all add: batch_state_def at_simps)
  note t = deletion_only_after_all_units[where st = batch_state and ?st0.0 = batch_state
      and inputDir = "[''in'']" and outputDir = "[''out'']" and names = ?batch
      and e = ?e and s = batch_state_after_A, THEN conjunct1, THEN mp, OF b1,
      THEN conjunct1, THEN mp, OF b2]
  note keep = t[THEN conjunct2, THEN spec, THEN mp]
  note a1 = t[THEN conjunct1]
  note a2 = keep[OF b3]
  note a3 = keep[OF b4]
  let ?names = "[''Admin.profile-meta.xml'', ''Bare.profile-meta.xml'']"
  have pf: "profile_files [''in''] ?names
      = [[''in'', ''Admin.profile-meta.xml''], [''in'', ''Bare.profile-meta.xml'']]"
    by (simp add: profile_files_def ends_with_def path_join_def)
  have g1: "existsSync (files example_state) [''in'']
      \<and> ensure_dir [''out''] example_state = Returned example_state
      \<and> readdirSync (files example_state) [''in''] = Inr ?names
      \<and> profile_files [''in''] ?names \<noteq> []"
    by (simp add: existsSync_def ensure_dir_def readdirSync_def example_defs pf)
  have g2: "for_each (\<lambda>f. splitProfile f [''out'']) (profile_files [''in''] ?names) example_state
              = Returned example_state_split"
    by (simp add: pf run_eval example_defs example_state_split_def)
  have g3: "for_each unlink_original (profile_files [''in''] ?names) example_state_split
              = Returned example_state_done"
    by (simp add: pf unlink_original_def example_state_split_def example_state_done_def)
  note u = deletion_only_after_all_units[where st = example_state and ?st0.0 = example_state
      and inputDir = "[''in'']" and outputDir = "[''out'']" and names = ?names
      and ?s2.0 = example_state_split and s = example_state_done, THEN conjunct1, THEN mp,
      OF g1, THEN conjunct2, THEN mp, OF g2]
  note run = u[THEN conjunct1]
  note gone = u[THEN conjunct2, THEN conjunct1]
  from run g3 have fin: "Split_run [''in''] [''out''] True example_state
      = Returned example_state_done" by simp
  from gone[THEN mp, OF fin]
  have all: "\<forall>f \<in> set [[''in'', ''Admin.profile-meta.xml''], [''in'', ''Bare.profile-meta.xml'']].
               \<not> existsSync (files example_state_done) f"
    by (simp only: pf)
  from all have r1: "\<not> existsSync (files example_state_done) [''in'', ''Admin.profile-meta.xml'']"
    by (rule bspec) simp
  from all have r2: "\<not> existsSync (files example_state_done) [''in'', ''Bare.profile-meta.xml'']"
    by (rule bspec) simp
  from g2 have g2': "for_each (\<lambda>f. splitProfile f [''out''])
         [[''in'', ''Admin.profile-meta.xml''], [''in'', ''Bare.profile-meta.xml'']] example_state
       = Returned example_state_split"
    by (simp only: pf)
  let ?m = "final (mergeProfile [''split'', ''Admin''] [''merged''] example_split_state)"
  have m1: "existsSync (files example_split_state) [''split'']
      \<and> ensure_dir [''merged''] example_split_state = Returned example_split_state
      \<and> subdirectories (files example_split_state) [''split''] = Inr [[''split'', ''Admin'']]
      \<and> [[''split'', ''Admin'']] \<noteq> []"
    by (simp add: existsSync_def ensure_dir_def subdirectories_def readdirSync_def
        isDirectory_def path_join_def example_split_state_def)
  have m2: "for_each (\<lambda>d. mergeProfile d [''merged'']) [[''split'', ''Admin'']]
              example_split_state = Returned ?m"
    by (simp add: example_merge_run)
  have m3: "well_formed (files example_split_state)"
    by (simp add: example_split_state_def simple_name_def)
  note v = deletion_only_after_all_units[where st = example_split_state
      and ?st0.0 = example_split_state and inputDir = "[''split'']"
      and outputDir = "[''merged'']" and profileDirs = "[[''split'', ''Admin'']]"
      and ?s2.0 = ?m
      and s = "final (Merge_run [''split''] [''merged''] True example_split_state)",
      THEN conjunct2, THEN mp, OF m1, THEN conjunct2, THEN mp, OF m2]
  note m4 = v[THEN conjunct2, THEN conjunct2, THEN mp, OF m3]
  from m4 have m5: "Merge_run [''split''] [''merged''] True example_split_state
      = Returned (final (Merge_run [''split''] [''merged''] True example_split_state))"
    by (cases "Merge_run [''split''] [''merged''] True example_split_state") simp_all
  from v[THEN conjunct2, THEN conjunct1, THEN mp, OF m5]
  have m6: "\<not> existsSync (files (final (Merge_run [''split''] [''merged''] True
      example_split_state))) [''split'', ''Admin'']"
    by (rule bspec) simp
  from a1 a2 a3 g2' fin r1 r2 m3 m4 m6 show ?thesis by (intro conjI)
qed

text \<open>
  C3 as the specification states it fails on the batch with the malformed second profile: the first
  profile has been split, and its original is still there after the run.
\<close>

theorem processed_original_kept_counterexample:
  "Split_run [''in''] [''out''] True batch_state
     = Thrown (CLIError ''Error processing profile B: Unclosed root tag'') batch_state_after_A
   \<and> file_at (files batch_state_after_A)
        [''out'', ''A'', ''fieldPermissions'', ''Account-Name.xml'']
     = Some example_artifact
   \<and> file_at (files batch_state_after_A) [''in'', ''A.profile-meta.xml'']
     = Some example_document"
  by (simp add: batch_run_any) (simp add: batch_state_after_A_def at_simps)


section \<open>Root attributes and empty elements\<close>

lemma example_parse:
  "parseStringPromise example_document = Inr (JObject [(''Profile'', example_profile)])"
  by (simp add: codec_eval example_defs example_profile_def)

lemma example_split_run:
  "splitProfile [''in'', ''Admin.profile-meta.xml''] [''out''] example_state
     = Returned \<lparr>files =
         Dir [(''in'',
               Dir [(''Admin.profile-meta.xml'', File example_document),
                    (''Bare.profile-meta.xml'', File example_bare)]),
              (''out'',
               Dir [(''Admin'',
                     Dir [(''custom'', Dir []),
                          (''fieldPermissions'',
                           Dir [(''Account-Name.xml'', File example_artifact)]),
                          (''loginHours'', Dir [])])])],
         randoms = (\<lambda>n. Double 1 1)\<rparr>"
  by (simp add: run_eval example_defs)

text \<open>
  C5 fails on the code. The parser delivers the attributes of the root element under the
  key \<^verbatim>\<open>$\<close>, so the property \<^verbatim>\<open>_xmlns\<close> that line 147 copies is undefined;
  and the builder makes a child element of a property of that name, not an attribute. No
  artifact has a root attribute, whatever the profile: the artifact of the example, a
  document with a namespace declaration, has the empty element \<^verbatim>\<open>_xmlns\<close> in
  its place.
\<close>

theorem root_attributes_not_propagated:
  "root_attributes (buildObject (artifact profile key item)) = []
   \<and> root_attributes example_document = [(''xmlns'', ''urn:example'')]
   \<and> parseStringPromise example_document = Inr (JObject [(''Profile'', example_profile)])
   \<and> member_of example_profile ''_xmlns'' = JUndefined
   \<and> buildObject (artifact example_profile ''fieldPermissions'' example_item) = example_artifact
   \<and> file_at (files (final (splitProfile [''in'', ''Admin.profile-meta.xml''] [''out'']
                               example_state)))
        [''out'', ''Admin'', ''fieldPermissions'', ''Account-Name.xml'']
       = Some example_artifact
   \<and> root_attributes example_artifact = []
   \<and> root_children example_artifact = [example_record, Element ''_xmlns'' [] [Text []]]"
proof -
  have a: "root_attributes (buildObject (artifact profile key item)) = []"
    by (cases "key = ''_xmlns''")
       (auto simp: buildObject_def artifact_def split: jsval.splits)
  have b: "buildObject (artifact example_profile ''fieldPermissions'' example_item)
             = example_artifact"
    by (simp add: codec_eval example_defs example_profile_def)
  have c: "file_at (files (final (splitProfile [''in'', ''Admin.profile-meta.xml''] [''out'']
                               example_state)))
        [''out'', ''Admin'', ''fieldPermissions'', ''Account-Name.xml'']
       = Some example_artifact"
    by (simp add: example_split_run at_simps)
  have d: "root_attributes example_document = [(''xmlns'', ''urn:example'')]"
    "member_of example_profile ''_xmlns'' = JUndefined"
    "root_attributes example_artifact = []"
    "root_children example_artifact = [example_record, Element ''_xmlns'' [] [Text []]]"
    by (simp_all add: example_document_def example_profile_def example_artifact_def)
  from a b c d example_parse show ?thesis by simp
qed


text \<open>
  C7 fails on the code. The object of line 98 has the namespace under the property
  \<^verbatim>\<open>_xmlns\<close>, of which the builder makes the first child element of the root: the
  merged document has no root attribute at all. Nothing of it comes from the artifacts.
\<close>

theorem merged_root_has_no_attributes:
  "mergeProfile [''split'', ''Admin''] [''merged''] example_split_state
     = Returned (example_split_state\<lparr>files :=
         Dir [(''split'',
               Dir [(''Admin'',
                     Dir [(''fieldPermissions'',
                           Dir [(''Account-Name.xml'', File example_artifact),
                                (''stray.xml'', File stray_artifact)])])]),
              (''merged'', Dir [(''Admin.profile-meta.xml'', File example_merged)])]\<rparr>)
   \<and> root_attributes example_merged = []
   \<and> root_children example_merged
       = [Element ''_xmlns'' [] [Text ''http://soap.sforce.com/2006/04/metadata''],
          example_record]"
  by (simp add: example_merge_run)
     (simp add: example_split_state_def example_merged_def)


section \<open>The Splitter: the tree that a split leaves\<close>














lemma split_tree_keys: "fst ` set (split_tree profile rs es) \<subseteq> fst ` set es"
  by (induction es arbitrary: rs) (auto split: jsval.splits if_splits)












end
